theory Spec2Isabelle
  imports Main "HOL-Library.Word" "HOL-Library.Finite_Map" "HOL-Library.Char_ord"
    "HOL-Library.List_Lexorder"
begin

unbundle bit_operations_syntax

section \<open>The multi-server MCP client of ttobot\<close>

text \<open>
  A shallow embedding of package \<open>pkg/mcp\<close> (the registry of live sessions, tool
  listing, tool execution), of \<open>lib/tool\<close> (the common tool structure) and of the
  tool-call handling of \<open>pkg/ollama\<close>. Calls into the Go standard library and into
  the MCP SDK are modelled by what they return: the clock, the entropy source, the
  outcome of a handshake and the answers of a provider are inputs of the model.
  The operations run one at a time: the lock of the registry, the contexts and the
  log output are left out.
\<close>

subsection \<open>Dynamically typed payloads\<close>

text \<open>
  Go's \<open>any\<close>, as far as it crosses the protocol boundary: the values that
  \<open>encoding/json\<close> produces. Numbers are \<open>float64\<close> and stay opaque; a map is the
  list of its entries, as its JSON object has them.
\<close>

typedecl float64

datatype any =
    AnyNil
  | AnyBool bool
  | AnyFloat64 float64
  | AnyString string
  | AnySlice "any list"
  | AnyMap "(string \<times> any) list"

text \<open>\<open>map[string]any\<close>, the arguments of an invocation.\<close>

type_synonym arguments = "(string \<times> any) list"

subsection \<open>Errors\<close>

text \<open>
  One constructor for each \<open>fmt.Errorf\<close> of the source; \<open>External\<close> is an error
  that the SDK or the standard library returned, known by its message only.
\<close>

datatype error =
    External string
  | ConnectFailed error
  | ServerExists string
  | NoServersConnected
  | ListToolsFailed error
  | ConvertSchemaFailed string error
  | NoToolsFound
  | ServerNotFound string
  | CallToolFailed string error
  | MarshalFailed string error
  | UnmarshalFailed string error
  | UnmarshalTypeError string string
  | ConnectServerFailed string error
  | NoExecutor string
  | ToolNotFound string
  | ToolExecutionFailed error

text \<open>\<open>err.Error()\<close>: the format strings of the source, with \<open>%w\<close> and \<open>%s\<close> filled in.\<close>

fun Error :: "error \<Rightarrow> string" where
  "Error (External m) = m"
| "Error (ConnectFailed e) = ''failed to connect to MCP server: '' @ Error e"
| "Error (ServerExists i) = ''server with ID '' @ i @ '' already exists''"
| "Error NoServersConnected = ''no servers connected''"
| "Error (ListToolsFailed e) = ''failed to list tools: '' @ Error e"
| "Error (ConvertSchemaFailed n e) =
     ''failed to convert input schema for tool '' @ n @ '': '' @ Error e"
| "Error NoToolsFound = ''no tools found''"
| "Error (ServerNotFound i) = ''server '' @ i @ '' not found''"
| "Error (CallToolFailed n e) = ''failed to call tool '' @ n @ '': '' @ Error e"
| "Error (MarshalFailed ty e) = ''failed to marshal from type '' @ ty @ '': '' @ Error e"
| "Error (UnmarshalFailed ty e) = ''failed to unmarshal to type '' @ ty @ '': '' @ Error e"
| "Error (UnmarshalTypeError v ty) = ''json: cannot unmarshal '' @ v @ '' into Go value of type '' @ ty"
| "Error (ConnectServerFailed n e) = ''failed to connect to server '' @ n @ '': '' @ Error e"
| "Error (NoExecutor n) = ''no executor available for tool '' @ n"
| "Error (ToolNotFound n) = ''tool '' @ n @ '' not found''"
| "Error (ToolExecutionFailed e) = ''tool execution failed: '' @ Error e"

subsection \<open>Server identifiers\<close>

text \<open>
  \<open>hex.EncodeToString\<close>: two lower-case digits for each byte, the high nibble first.
\<close>

definition hextable :: string where
  "hextable = ''0123456789abcdef''"

fun EncodeToString :: "8 word list \<Rightarrow> string" where
  "EncodeToString [] = []"
| "EncodeToString (b # bs) =
     hextable ! unat (drop_bit 4 b) # hextable ! unat (b AND 0x0f) # EncodeToString bs"

text \<open>
  \<open>generateUUID\<close>: a buffer of 16 zero bytes, filled by \<open>rand.Read\<close>, whose error
  is ignored; \<open>entropy\<close> is what the source of randomness delivers.
\<close>

definition generateUUID :: "8 word list \<Rightarrow> string" where
  "generateUUID entropy = EncodeToString (take 16 (entropy @ replicate 16 0))"

text \<open>
  \<open>time.Now()\<close> is an instant together with the local time zone of the process:
  seconds since the Unix epoch and the zone's offset east of UTC, in seconds.
  \<open>UTC\<close> is the method \<open>Time.UTC\<close>, which keeps the instant and drops the zone.
\<close>

record Time =
  unix_sec :: int
  zone_offset :: int

definition UTC :: "Time \<Rightarrow> Time" where
  "UTC t = t\<lparr>zone_offset := 0\<rparr>"

text \<open>The civil date of a day number counted from 1970-01-01 (proleptic Gregorian).\<close>

definition civil_from_days :: "int \<Rightarrow> int \<times> int \<times> int" where
  "civil_from_days days =
     (let z = days + 719468;
          era = z div 146097;
          doe = z - era * 146097;
          yoe = (doe - doe div 1460 + doe div 36524 - doe div 146096) div 365;
          doy = doe - (365 * yoe + yoe div 4 - yoe div 100);
          mp = (5 * doy + 2) div 153;
          d = doy - (153 * mp + 2) div 5 + 1;
          m = (if mp < 10 then mp + 3 else mp - 9);
          y = yoe + era * 400 + (if m \<le> 2 then 1 else 0)
      in (y, m, d))"

definition decimal :: string where
  "decimal = ''0123456789''"

fun digits :: "nat \<Rightarrow> string" where
  "digits n =
     (if n < 10 then [decimal ! n]
      else digits (n div 10) @ [decimal ! (n mod 10)])"

declare digits.simps [simp del]

text \<open>
  \<open>appendInt\<close> of package \<open>time\<close>: a sign, then the digits padded with zeros to
  the width.
\<close>

definition appendInt :: "int \<Rightarrow> nat \<Rightarrow> string" where
  "appendInt x width =
     (let ds = digits (nat \<bar>x\<bar>)
      in (if x < 0 then ''-'' else []) @ replicate (width - length ds) (CHR ''0'') @ ds)"

text \<open>
  \<open>t.Format("20060102-150405")\<close>: year, month, day, a hyphen, hour, minute and second
  of the wall clock in the zone of \<open>t\<close>.
\<close>

definition Format_20060102_150405 :: "Time \<Rightarrow> string" where
  "Format_20060102_150405 t =
     (let abs = unix_sec t + zone_offset t;
          secs = abs mod 86400;
          (y, m, d) = civil_from_days (abs div 86400)
      in appendInt y 4 @ appendInt m 2 @ appendInt d 2 @ ''-'' @
         appendInt (secs div 3600) 2 @ appendInt (secs mod 3600 div 60) 2 @
         appendInt (secs mod 60) 2)"

text \<open>\<open>generateServerID\<close>, with the clock and the entropy it reads as arguments.\<close>

definition generateServerID :: "Time \<Rightarrow> 8 word list \<Rightarrow> string \<Rightarrow> string" where
  "generateServerID now entropy originalID =
     (if originalID \<noteq> [] then originalID
      else (let timestamp = Format_20060102_150405 now;
                uuid = generateUUID entropy
            in ''mcp-server-'' @ timestamp @ ''-'' @ take 8 uuid))"

subsection \<open>Schemas and tools\<close>

text \<open>\<open>tool.PropertyDefinition\<close> and \<open>tool.ParameterSchema\<close> of \<open>lib/tool\<close>.\<close>

record PropertyDefinition =
  prop_Type :: string
  prop_Description :: string
  prop_Items :: any
  prop_Enum :: "any list"

record ParameterSchema =
  schema_Type :: string
  schema_Required :: "string list"
  schema_Properties :: "(string, PropertyDefinition) fmap"
  schema_Defs :: any
  schema_Items :: any

text \<open>
  \<open>mcp.Tool\<close> of the SDK, by the fields the client reads. The input schema is a
  pointer: \<open>None\<close> is \<open>nil\<close>.
\<close>

record mcp_Tool =
  mcp_Name :: string
  mcp_Description :: string
  mcp_Title :: string
  mcp_InputSchema :: "any option"

text \<open>
  \<open>MCPToolExecutor\<close>. Its field \<open>client\<close> points to the one registry; the
  registry as it is when the tool runs is an argument of \<open>Execute\<close> below.
\<close>

record MCPToolExecutor =
  exec_serverID :: string
  exec_toolName :: string
  exec_originalTool :: mcp_Tool

record ToolFunction =
  fn_Name :: string
  fn_Description :: string
  fn_Parameters :: ParameterSchema

text \<open>\<open>tool.Tool\<close>; the executor is an interface value, \<open>None\<close> when it is \<open>nil\<close>.\<close>

record Tool =
  Tool_Name :: string
  Tool_Description :: string
  Tool_Title :: string
  Tool_Function :: ToolFunction
  Tool_Executor :: "MCPToolExecutor option"

subsection \<open>Sessions and the world outside the client\<close>

datatype Content =
    TextContent string
  | OtherContent "error + string"

text \<open>
  \<open>OtherContent r\<close> is a fragment that is not a \<open>*mcp.TextContent\<close>; \<open>r\<close> is what
  its \<open>MarshalJSON\<close> returns. In a result, \<open>Content = None\<close> is the \<open>nil\<close> slice.
\<close>

record CallToolResult =
  result_Content :: "Content list option"
  result_IsError :: bool

record CallToolParams =
  params_Name :: string
  params_Arguments :: arguments

text \<open>
  A \<open>*mcp.ClientSession\<close> is a handle; the session behind it answers \<open>ID\<close>, yields
  the pairs of the iterator \<open>Tools\<close>, answers \<open>CallTool\<close>, and can be closed.
\<close>

type_synonym handle = nat

record ClientSession =
  ss_ID :: string
  ss_Tools :: "(mcp_Tool option \<times> error option) list"
  ss_CallTool :: "CallToolParams \<Rightarrow> error + CallToolResult"
  ss_closed :: bool

record World =
  sessions :: "handle \<Rightarrow> ClientSession"
  next_handle :: handle

definition Close :: "World \<Rightarrow> handle \<Rightarrow> World" where
  "Close w ss = w\<lparr>sessions := (sessions w)(ss := (sessions w ss)\<lparr>ss_closed := True\<rparr>)\<rparr>"

text \<open>A new session object is placed at the next free address.\<close>

definition allocate :: "World \<Rightarrow> ClientSession \<Rightarrow> World" where
  "allocate w s =
     w\<lparr>sessions := (sessions w)(next_handle w := s), next_handle := Suc (next_handle w)\<rparr>"

text \<open>
  \<open>mcp.Client.Connect\<close> of the SDK: the handshake fails, or a new session object is
  allocated and its pointer returned.
\<close>

definition mcp_Client_Connect ::
  "World \<Rightarrow> error + ClientSession \<Rightarrow> (error + handle) \<times> World" where
  "mcp_Client_Connect w handshake =
     (case handshake of
        Inl err \<Rightarrow> (Inl err, w)
      | Inr s \<Rightarrow> (Inr (next_handle w), allocate w s))"

subsection \<open>The registry\<close>

record Client =
  servers :: "string \<rightharpoonup> handle"
  serverIDs :: "handle \<rightharpoonup> string"

definition NewClient :: "string \<Rightarrow> string \<Rightarrow> Client" where
  "NewClient name version = \<lparr>servers = Map.empty, serverIDs = Map.empty\<rparr>"

text \<open>What one connection attempt reads from outside: the handshake, the clock, the entropy.\<close>

record attempt =
  handshake :: "error + ClientSession"
  clock :: Time
  entropy :: "8 word list"

definition connectWithTransport ::
  "Client \<Rightarrow> World \<Rightarrow> attempt \<Rightarrow> error option \<times> Client \<times> World" where
  "connectWithTransport c w a =
     (case mcp_Client_Connect w (handshake a) of
        (Inl err, w') \<Rightarrow> (Some (ConnectFailed err), c, w')
      | (Inr ss, w') \<Rightarrow>
          (let originalID = ss_ID (sessions w' ss);
               serverID = generateServerID (clock a) (entropy a) originalID
           in case servers c serverID of
                Some other \<Rightarrow> (Some (ServerExists serverID), c, Close w' ss)
              | None \<Rightarrow>
                  (None,
                   c\<lparr>servers := (servers c)(serverID \<mapsto> ss),
                     serverIDs := (serverIDs c)(ss \<mapsto> serverID)\<rparr>,
                   w')))"

text \<open>\<open>Connect\<close> and \<open>ConnectWithCommand\<close> build a command transport and connect with it.\<close>

definition Connect ::
  "Client \<Rightarrow> World \<Rightarrow> string \<Rightarrow> string list \<Rightarrow> attempt \<Rightarrow> error option \<times> Client \<times> World" where
  "Connect c w filepath args a = connectWithTransport c w a"

definition ConnectWithCommand ::
  "Client \<Rightarrow> World \<Rightarrow> attempt \<Rightarrow> error option \<times> Client \<times> World" where
  "ConnectWithCommand c w a = connectWithTransport c w a"

record Config =
  Config_Name :: string
  Config_Command :: string
  Config_Args :: "string list"
  Config_Environment :: "(string \<times> string) list"

definition ConnectFromConfig ::
  "Client \<Rightarrow> World \<Rightarrow> Config \<Rightarrow> attempt \<Rightarrow> error option \<times> Client \<times> World" where
  "ConnectFromConfig c w config a = ConnectWithCommand c w a"

fun ConnectFromConfigs ::
  "Client \<Rightarrow> World \<Rightarrow> (Config \<times> attempt) list \<Rightarrow> error option \<times> Client \<times> World" where
  "ConnectFromConfigs c w [] = (None, c, w)"
| "ConnectFromConfigs c w ((config, a) # configs) =
     (case ConnectFromConfig c w config a of
        (Some err, c', w') \<Rightarrow> (Some (ConnectServerFailed (Config_Name config) err), c', w')
      | (None, c', w') \<Rightarrow> ConnectFromConfigs c' w' configs)"

text \<open>A caller making one \<open>Connect\<close> after the other, keeping every outcome.\<close>

fun connect_each ::
  "Client \<Rightarrow> World \<Rightarrow> attempt list \<Rightarrow> error option list \<times> Client \<times> World" where
  "connect_each c w [] = ([], c, w)"
| "connect_each c w (a # as) =
     (case connectWithTransport c w a of
        (r, c', w') \<Rightarrow> (case connect_each c' w' as of (rs, c'', w'') \<Rightarrow> (r # rs, c'', w'')))"

text \<open>The identifier an attempt leads to, when its handshake succeeds.\<close>

definition resulting_id :: "attempt \<Rightarrow> string option" where
  "resulting_id a =
     (case handshake a of
        Inl err \<Rightarrow> None
      | Inr s \<Rightarrow> Some (generateServerID (clock a) (entropy a) (ss_ID s)))"

text \<open>
  The two maps of the registry are inverse to each other, and every registered
  session has been allocated.
\<close>

definition inverse_maps :: "Client \<Rightarrow> bool" where
  "inverse_maps c \<longleftrightarrow>
     (\<forall>i ss. servers c i = Some ss \<longrightarrow> serverIDs c ss = Some i) \<and>
     (\<forall>ss i. serverIDs c ss = Some i \<longrightarrow> servers c i = Some ss)"

definition registry_inv :: "Client \<Rightarrow> World \<Rightarrow> bool" where
  "registry_inv c w \<longleftrightarrow>
     inverse_maps c \<and> finite (dom (servers c)) \<and> (\<forall>ss \<in> dom (serverIDs c). ss < next_handle w)"

text \<open>The states of registry and world that some sequence of connection attempts leads to.\<close>

inductive reachable :: "Client \<Rightarrow> World \<Rightarrow> bool" where
  init: "reachable (NewClient name version) w"
| step: "reachable c w \<Longrightarrow> connectWithTransport c w a = (r, c', w') \<Longrightarrow> reachable c' w'"

text \<open>
  \<open>Connect\<close>, \<open>ConnectWithCommand\<close> and \<open>ConnectFromConfig\<close> hand \<open>connectWithTransport\<close>
  a \<open>*mcp.CommandTransport\<close>, the only transport that it takes. A session over a
  command transport has no identifier of its own: its \<open>ID\<close> is the empty string, so
  that the connection is registered under a generated identifier.
\<close>

definition CommandTransport_attempt :: "attempt \<Rightarrow> bool" where
  "CommandTransport_attempt a \<longleftrightarrow>
     (case handshake a of Inl err \<Rightarrow> True | Inr s \<Rightarrow> ss_ID s = [])"

text \<open>The states that connection attempts over command transports lead to.\<close>

inductive reachable_by_command :: "Client \<Rightarrow> World \<Rightarrow> bool" where
  init: "reachable_by_command (NewClient name version) w"
| step: "reachable_by_command c w \<Longrightarrow> CommandTransport_attempt a \<Longrightarrow>
         connectWithTransport c w a = (r, c', w') \<Longrightarrow> reachable_by_command c' w'"

text \<open>No registered identifier contains a colon.\<close>

definition colon_free :: "Client \<Rightarrow> bool" where
  "colon_free c \<longleftrightarrow> (\<forall>k \<in> dom (servers c). CHR '':'' \<notin> set k)"

subsection \<open>Converting through JSON\<close>

text \<open>
  \<open>encoding/json\<close> for one pair of Go types: \<open>json.Marshal\<close> on the source type,
  \<open>json.Unmarshal\<close> of the data into a target, and the two type names that \<open>%T\<close>
  prints. When \<open>json.Unmarshal\<close> fails it leaves its target partly written; no
  caller reads the target then, and the model returns the error alone.
\<close>

record ('a, 'd, 'b) encoding_json =
  Marshal :: "'a \<Rightarrow> error + 'd"
  Unmarshal :: "'d \<Rightarrow> 'b \<Rightarrow> error + 'b"
  type_from :: string
  type_to :: string

definition ConvertViaJSON :: "('a, 'd, 'b) encoding_json \<Rightarrow> 'a \<Rightarrow> 'b \<Rightarrow> error + 'b" where
  "ConvertViaJSON js from to =
     (case Marshal js from of
        Inl err \<Rightarrow> Inl (MarshalFailed (type_from js) err)
      | Inr data \<Rightarrow>
          (case Unmarshal js data to of
             Inl err \<Rightarrow> Inl (UnmarshalFailed (type_to js) err)
           | Inr to' \<Rightarrow> Inr to'))"

subsection \<open>JSON for the schema types\<close>

text \<open>
  A JSON text is modelled by its tree, a value of type \<open>any\<close>; an object is the list
  of its members in the order of the text. \<open>json.Marshal\<close> writes a struct as the
  object of its fields, in the order of their declaration and under the names of
  their tags, and leaves out a field tagged \<open>omitempty\<close> that is empty. It writes a
  map as the object of its entries in the order of their keys, a nil slice or map
  as \<open>null\<close>, and a value of type \<open>any\<close> as the tree that it is. A slice is a list
  and a map a finite map: \<open>nil\<close> and empty are the same value here.
\<close>

definition omitempty :: "string \<Rightarrow> bool \<Rightarrow> any \<Rightarrow> (string \<times> any) list" where
  "omitempty tag is_empty v = (if is_empty then [] else [(tag, v)])"

definition marshal_strings :: "string list \<Rightarrow> any" where
  "marshal_strings xs = (if xs = [] then AnyNil else AnySlice (map AnyString xs))"

definition marshal_anys :: "any list \<Rightarrow> any" where
  "marshal_anys xs = (if xs = [] then AnyNil else AnySlice xs)"

definition marshal_map :: "('e \<Rightarrow> any) \<Rightarrow> (string, 'e) fmap \<Rightarrow> any" where
  "marshal_map enc m =
     (if m = fmempty then AnyNil
      else AnyMap (map (\<lambda>(k, x). (k, enc x)) (sorted_list_of_fmap m)))"

text \<open>The fields and tags of \<open>PropertyDefinition\<close> and \<open>ParameterSchema\<close>.\<close>

definition marshal_PropertyDefinition :: "PropertyDefinition \<Rightarrow> any" where
  "marshal_PropertyDefinition p =
     AnyMap ([(''type'', AnyString (prop_Type p))] @
             omitempty ''description'' (prop_Description p = []) (AnyString (prop_Description p)) @
             omitempty ''items'' (prop_Items p = AnyNil) (prop_Items p) @
             omitempty ''enum'' (prop_Enum p = []) (marshal_anys (prop_Enum p)))"

definition marshal_ParameterSchema :: "ParameterSchema \<Rightarrow> any" where
  "marshal_ParameterSchema ps =
     AnyMap ([(''type'', AnyString (schema_Type ps))] @
             omitempty ''required'' (schema_Required ps = []) (marshal_strings (schema_Required ps)) @
             omitempty ''properties'' (schema_Properties ps = fmempty)
               (marshal_map marshal_PropertyDefinition (schema_Properties ps)) @
             omitempty ''$defs'' (schema_Defs ps = AnyNil) (schema_Defs ps) @
             omitempty ''items'' (schema_Items ps = AnyNil) (schema_Items ps))"

text \<open>
  \<open>json.Unmarshal\<close> stores a tree into a target. \<open>null\<close> leaves a string or a struct
  as it is and makes a slice, a map or a value of type \<open>any\<close> \<open>nil\<close>. A string takes a
  string, a slice an array, a map or a struct an object, a value of type \<open>any\<close>
  every tree; another tree is a type error, named by the kind of the tree and the
  Go type. The elements of an array are stored into the elements that the slice
  has, and beyond them into zero values; the members of an object are stored one
  after the other, each into a new zero value for a map, and for a struct into the
  field whose tag is the name of the member, a member with another name being
  skipped (the fallback of \<open>encoding/json\<close> to a tag that differs by case only is
  left out). The model stops at the first error, and names a type error without
  the path of the field.
\<close>

definition kind_of :: "any \<Rightarrow> string" where
  "kind_of v =
     (case v of
        AnyNil \<Rightarrow> ''null''
      | AnyBool b \<Rightarrow> ''bool''
      | AnyFloat64 x \<Rightarrow> ''number''
      | AnyString s \<Rightarrow> ''string''
      | AnySlice vs \<Rightarrow> ''array''
      | AnyMap kvs \<Rightarrow> ''object'')"

definition decode_string :: "any \<Rightarrow> string \<Rightarrow> error + string" where
  "decode_string v old =
     (case v of
        AnyNil \<Rightarrow> Inr old
      | AnyString s \<Rightarrow> Inr s
      | _ \<Rightarrow> Inl (UnmarshalTypeError (kind_of v) ''string''))"

definition decode_any :: "any \<Rightarrow> any \<Rightarrow> error + any" where
  "decode_any v old = Inr v"

fun decode_elems ::
  "(any \<Rightarrow> 'e \<Rightarrow> error + 'e) \<Rightarrow> 'e \<Rightarrow> any list \<Rightarrow> 'e list \<Rightarrow> error + 'e list" where
  "decode_elems dec zero [] old = Inr []"
| "decode_elems dec zero (v # vs) old =
     (case dec v (case old of [] \<Rightarrow> zero | x # xs \<Rightarrow> x) of
        Inl e \<Rightarrow> Inl e
      | Inr y \<Rightarrow>
          (case decode_elems dec zero vs (tl old) of
             Inl e \<Rightarrow> Inl e
           | Inr ys \<Rightarrow> Inr (y # ys)))"

definition decode_slice ::
  "string \<Rightarrow> (any \<Rightarrow> 'e \<Rightarrow> error + 'e) \<Rightarrow> 'e \<Rightarrow> any \<Rightarrow> 'e list \<Rightarrow> error + 'e list" where
  "decode_slice ty dec zero v old =
     (case v of
        AnyNil \<Rightarrow> Inr []
      | AnySlice vs \<Rightarrow> decode_elems dec zero vs old
      | _ \<Rightarrow> Inl (UnmarshalTypeError (kind_of v) ty))"

fun decode_entries ::
  "(any \<Rightarrow> 'e \<Rightarrow> error + 'e) \<Rightarrow> 'e \<Rightarrow> (string \<times> any) list \<Rightarrow> (string, 'e) fmap \<Rightarrow>
   error + (string, 'e) fmap" where
  "decode_entries dec zero [] m = Inr m"
| "decode_entries dec zero ((k, v) # kvs) m =
     (case dec v zero of
        Inl e \<Rightarrow> Inl e
      | Inr x \<Rightarrow> decode_entries dec zero kvs (fmupd k x m))"

definition decode_map ::
  "string \<Rightarrow> (any \<Rightarrow> 'e \<Rightarrow> error + 'e) \<Rightarrow> 'e \<Rightarrow> any \<Rightarrow> (string, 'e) fmap \<Rightarrow>
   error + (string, 'e) fmap" where
  "decode_map ty dec zero v old =
     (case v of
        AnyNil \<Rightarrow> Inr fmempty
      | AnyMap kvs \<Rightarrow> decode_entries dec zero kvs old
      | _ \<Rightarrow> Inl (UnmarshalTypeError (kind_of v) ty))"

fun decode_members ::
  "(string \<Rightarrow> any \<Rightarrow> 's \<Rightarrow> error + 's) \<Rightarrow> (string \<times> any) list \<Rightarrow> 's \<Rightarrow> error + 's" where
  "decode_members field [] s = Inr s"
| "decode_members field ((k, v) # kvs) s =
     (case field k v s of
        Inl e \<Rightarrow> Inl e
      | Inr s' \<Rightarrow> decode_members field kvs s')"

definition decode_struct ::
  "string \<Rightarrow> (string \<Rightarrow> any \<Rightarrow> 's \<Rightarrow> error + 's) \<Rightarrow> any \<Rightarrow> 's \<Rightarrow> error + 's" where
  "decode_struct ty field v old =
     (case v of
        AnyNil \<Rightarrow> Inr old
      | AnyMap kvs \<Rightarrow> decode_members field kvs old
      | _ \<Rightarrow> Inl (UnmarshalTypeError (kind_of v) ty))"

definition zero_PropertyDefinition :: PropertyDefinition where
  "zero_PropertyDefinition =
     \<lparr>prop_Type = [], prop_Description = [], prop_Items = AnyNil, prop_Enum = []\<rparr>"

definition zero_ParameterSchema :: ParameterSchema where
  "zero_ParameterSchema =
     \<lparr>schema_Type = [], schema_Required = [], schema_Properties = fmempty,
      schema_Defs = AnyNil, schema_Items = AnyNil\<rparr>"

definition PropertyDefinition_field ::
  "string \<Rightarrow> any \<Rightarrow> PropertyDefinition \<Rightarrow> error + PropertyDefinition" where
  "PropertyDefinition_field k v p =
     (if k = ''type'' then map_sum id (\<lambda>x. p\<lparr>prop_Type := x\<rparr>) (decode_string v (prop_Type p))
      else if k = ''description''
        then map_sum id (\<lambda>x. p\<lparr>prop_Description := x\<rparr>) (decode_string v (prop_Description p))
      else if k = ''items'' then map_sum id (\<lambda>x. p\<lparr>prop_Items := x\<rparr>) (decode_any v (prop_Items p))
      else if k = ''enum''
        then map_sum id (\<lambda>x. p\<lparr>prop_Enum := x\<rparr>)
               (decode_slice ''[]interface {}'' decode_any AnyNil v (prop_Enum p))
      else Inr p)"

definition unmarshal_PropertyDefinition :: "any \<Rightarrow> PropertyDefinition \<Rightarrow> error + PropertyDefinition" where
  "unmarshal_PropertyDefinition = decode_struct ''tool.PropertyDefinition'' PropertyDefinition_field"

definition ParameterSchema_field ::
  "string \<Rightarrow> any \<Rightarrow> ParameterSchema \<Rightarrow> error + ParameterSchema" where
  "ParameterSchema_field k v ps =
     (if k = ''type'' then map_sum id (\<lambda>x. ps\<lparr>schema_Type := x\<rparr>) (decode_string v (schema_Type ps))
      else if k = ''required''
        then map_sum id (\<lambda>x. ps\<lparr>schema_Required := x\<rparr>)
               (decode_slice ''[]string'' decode_string [] v (schema_Required ps))
      else if k = ''properties''
        then map_sum id (\<lambda>x. ps\<lparr>schema_Properties := x\<rparr>)
               (decode_map ''map[string]tool.PropertyDefinition'' unmarshal_PropertyDefinition
                  zero_PropertyDefinition v (schema_Properties ps))
      else if k = ''$defs'' then map_sum id (\<lambda>x. ps\<lparr>schema_Defs := x\<rparr>) (decode_any v (schema_Defs ps))
      else if k = ''items'' then map_sum id (\<lambda>x. ps\<lparr>schema_Items := x\<rparr>) (decode_any v (schema_Items ps))
      else Inr ps)"

definition unmarshal_ParameterSchema :: "any \<Rightarrow> ParameterSchema \<Rightarrow> error + ParameterSchema" where
  "unmarshal_ParameterSchema = decode_struct ''tool.ParameterSchema'' ParameterSchema_field"

text \<open>
  The other schema shape: the parameters of a tool declaration of the inference
  client, with the fields and tags that \<open>convertToOllamaTools\<close> writes out. The type
  of a property is an \<open>api.PropertyType\<close>, a slice of strings with a JSON form of its
  own, which is an argument of the model.
\<close>

record ollama_Property =
  oprop_Type :: "string list"
  oprop_Items :: any
  oprop_Description :: string
  oprop_Enum :: "any list"

record ollama_Parameters =
  oparams_Type :: string
  oparams_Defs :: any
  oparams_Items :: any
  oparams_Required :: "string list"
  oparams_Properties :: "(string, ollama_Property) fmap"

record PropertyType_json =
  MarshalJSON :: "string list \<Rightarrow> any"
  UnmarshalJSON :: "any \<Rightarrow> string list \<Rightarrow> error + string list"

definition zero_ollama_Property :: ollama_Property where
  "zero_ollama_Property =
     \<lparr>oprop_Type = [], oprop_Items = AnyNil, oprop_Description = [], oprop_Enum = []\<rparr>"

definition zero_ollama_Parameters :: ollama_Parameters where
  "zero_ollama_Parameters =
     \<lparr>oparams_Type = [], oparams_Defs = AnyNil, oparams_Items = AnyNil, oparams_Required = [],
      oparams_Properties = fmempty\<rparr>"

definition marshal_ollama_Property :: "PropertyType_json \<Rightarrow> ollama_Property \<Rightarrow> any" where
  "marshal_ollama_Property pt p =
     AnyMap ([(''type'', MarshalJSON pt (oprop_Type p))] @
             omitempty ''items'' (oprop_Items p = AnyNil) (oprop_Items p) @
             [(''description'', AnyString (oprop_Description p))] @
             omitempty ''enum'' (oprop_Enum p = []) (marshal_anys (oprop_Enum p)))"

definition marshal_ollama_Parameters :: "PropertyType_json \<Rightarrow> ollama_Parameters \<Rightarrow> any" where
  "marshal_ollama_Parameters pt ps =
     AnyMap ([(''type'', AnyString (oparams_Type ps))] @
             omitempty ''$defs'' (oparams_Defs ps = AnyNil) (oparams_Defs ps) @
             omitempty ''items'' (oparams_Items ps = AnyNil) (oparams_Items ps) @
             [(''required'', marshal_strings (oparams_Required ps)),
              (''properties'', marshal_map (marshal_ollama_Property pt) (oparams_Properties ps))])"

definition ollama_Property_field ::
  "PropertyType_json \<Rightarrow> string \<Rightarrow> any \<Rightarrow> ollama_Property \<Rightarrow> error + ollama_Property" where
  "ollama_Property_field pt k v p =
     (if k = ''type'' then map_sum id (\<lambda>x. p\<lparr>oprop_Type := x\<rparr>) (UnmarshalJSON pt v (oprop_Type p))
      else if k = ''items'' then map_sum id (\<lambda>x. p\<lparr>oprop_Items := x\<rparr>) (decode_any v (oprop_Items p))
      else if k = ''description''
        then map_sum id (\<lambda>x. p\<lparr>oprop_Description := x\<rparr>) (decode_string v (oprop_Description p))
      else if k = ''enum''
        then map_sum id (\<lambda>x. p\<lparr>oprop_Enum := x\<rparr>)
               (decode_slice ''[]interface {}'' decode_any AnyNil v (oprop_Enum p))
      else Inr p)"

definition unmarshal_ollama_Property ::
  "PropertyType_json \<Rightarrow> any \<Rightarrow> ollama_Property \<Rightarrow> error + ollama_Property" where
  "unmarshal_ollama_Property pt = decode_struct ''struct'' (ollama_Property_field pt)"

definition ollama_Parameters_field ::
  "PropertyType_json \<Rightarrow> string \<Rightarrow> any \<Rightarrow> ollama_Parameters \<Rightarrow> error + ollama_Parameters" where
  "ollama_Parameters_field pt k v ps =
     (if k = ''type'' then map_sum id (\<lambda>x. ps\<lparr>oparams_Type := x\<rparr>) (decode_string v (oparams_Type ps))
      else if k = ''$defs'' then map_sum id (\<lambda>x. ps\<lparr>oparams_Defs := x\<rparr>) (decode_any v (oparams_Defs ps))
      else if k = ''items'' then map_sum id (\<lambda>x. ps\<lparr>oparams_Items := x\<rparr>) (decode_any v (oparams_Items ps))
      else if k = ''required''
        then map_sum id (\<lambda>x. ps\<lparr>oparams_Required := x\<rparr>)
               (decode_slice ''[]string'' decode_string [] v (oparams_Required ps))
      else if k = ''properties''
        then map_sum id (\<lambda>x. ps\<lparr>oparams_Properties := x\<rparr>)
               (decode_map ''map[string]struct'' (unmarshal_ollama_Property pt)
                  zero_ollama_Property v (oparams_Properties ps))
      else Inr ps)"

definition unmarshal_ollama_Parameters ::
  "PropertyType_json \<Rightarrow> any \<Rightarrow> ollama_Parameters \<Rightarrow> error + ollama_Parameters" where
  "unmarshal_ollama_Parameters pt = decode_struct ''struct'' (ollama_Parameters_field pt)"

text \<open>\<open>encoding/json\<close> for the two directions between the two shapes.\<close>

definition schema_to_ollama ::
  "PropertyType_json \<Rightarrow> string \<Rightarrow> string \<Rightarrow> (ParameterSchema, any, ollama_Parameters) encoding_json" where
  "schema_to_ollama pt tf tt =
     \<lparr>Marshal = (\<lambda>ps. Inr (marshal_ParameterSchema ps)),
      Unmarshal = unmarshal_ollama_Parameters pt, type_from = tf, type_to = tt\<rparr>"

definition ollama_to_schema ::
  "PropertyType_json \<Rightarrow> string \<Rightarrow> string \<Rightarrow> (ollama_Parameters, any, ParameterSchema) encoding_json" where
  "ollama_to_schema pt tf tt =
     \<lparr>Marshal = (\<lambda>ps. Inr (marshal_ollama_Parameters pt ps)),
      Unmarshal = unmarshal_ParameterSchema, type_from = tf, type_to = tt\<rparr>"

text \<open>
  What the round trip needs of the JSON form of a property type: a string is read
  as a property type that is written as that string.
\<close>

definition reads_back_strings :: "PropertyType_json \<Rightarrow> bool" where
  "reads_back_strings pt \<longleftrightarrow>
     (\<forall>t old. \<exists>p. UnmarshalJSON pt (AnyString t) old = Inr p \<and> MarshalJSON pt p = AnyString t)"

text \<open>
  The parameters that the conversion of a schema fills in: the fields of the
  schema, the type of each property read as a property type.
\<close>

definition as_ollama_Property :: "PropertyType_json \<Rightarrow> PropertyDefinition \<Rightarrow> ollama_Property" where
  "as_ollama_Property pt p =
     \<lparr>oprop_Type = projr (UnmarshalJSON pt (AnyString (prop_Type p)) []),
      oprop_Items = prop_Items p, oprop_Description = prop_Description p,
      oprop_Enum = prop_Enum p\<rparr>"

definition as_ollama_Parameters :: "PropertyType_json \<Rightarrow> ParameterSchema \<Rightarrow> ollama_Parameters" where
  "as_ollama_Parameters pt ps =
     \<lparr>oparams_Type = schema_Type ps, oparams_Defs = schema_Defs ps, oparams_Items = schema_Items ps,
      oparams_Required = schema_Required ps,
      oparams_Properties = fmmap (as_ollama_Property pt) (schema_Properties ps)\<rparr>"

text \<open>
  A property type that is written as a string when it holds one type and as an
  array otherwise, and read from either.
\<close>

definition string_or_array :: PropertyType_json where
  "string_or_array =
     \<lparr>MarshalJSON = (\<lambda>p. case p of [s] \<Rightarrow> AnyString s | _ \<Rightarrow> AnySlice (map AnyString p)),
      UnmarshalJSON = (\<lambda>v old.
        case v of
          AnyString s \<Rightarrow> Inr [s]
        | AnyNil \<Rightarrow> Inr [[]]
        | _ \<Rightarrow> decode_slice ''[]string'' decode_string [] v [])\<rparr>"

subsection \<open>Listing tools\<close>

text \<open>The struct literal \<open>commonTool\<close> in the body of \<open>Tools\<close>.\<close>

definition commonTool_literal :: "string \<Rightarrow> string \<Rightarrow> mcp_Tool \<Rightarrow> Tool" where
  "commonTool_literal serverID toolName mcpTool =
     \<lparr>Tool_Name = toolName,
      Tool_Description = mcp_Description mcpTool,
      Tool_Title = mcp_Title mcpTool,
      Tool_Function =
        \<lparr>fn_Name = toolName,
         fn_Description = mcp_Description mcpTool,
         fn_Parameters =
           \<lparr>schema_Type = ''object'', schema_Required = [], schema_Properties = fmempty,
            schema_Defs = AnyNil, schema_Items = AnyNil\<rparr>\<rparr>,
      Tool_Executor =
        Some \<lparr>exec_serverID = serverID, exec_toolName = mcp_Name mcpTool,
              exec_originalTool = mcpTool\<rparr>\<rparr>"

text \<open>\<open>c.serverIDs[server]\<close>: a missing key reads as the empty string.\<close>

definition serverID_of :: "Client \<Rightarrow> handle \<Rightarrow> string" where
  "serverID_of c server = (case serverIDs c server of Some i \<Rightarrow> i | None \<Rightarrow> [])"

text \<open>
  The inner loop of \<open>Tools\<close>, over the pairs that the iterator of one session
  yields; \<open>result\<close> is the slice built so far.
\<close>

fun Tools_of_server ::
  "(any, 'd, ParameterSchema) encoding_json \<Rightarrow> Client \<Rightarrow> handle \<Rightarrow>
   (mcp_Tool option \<times> error option) list \<Rightarrow> Tool list \<Rightarrow> error + Tool list" where
  "Tools_of_server js c server [] result = Inr result"
| "Tools_of_server js c server ((mcpTool, err) # rest) result =
     (case err of
        Some e \<Rightarrow> Inl (ListToolsFailed e)
      | None \<Rightarrow>
          (case mcpTool of
             None \<Rightarrow> Tools_of_server js c server rest result
           | Some t \<Rightarrow>
               (let serverID = serverID_of c server;
                    toolName = serverID @ '':'' @ mcp_Name t;
                    commonTool = commonTool_literal serverID toolName t
                in case mcp_InputSchema t of
                     None \<Rightarrow> Tools_of_server js c server rest (result @ [commonTool])
                   | Some schema \<Rightarrow>
                       (case ConvertViaJSON js schema (fn_Parameters (Tool_Function commonTool)) of
                          Inl e \<Rightarrow> Inl (ConvertSchemaFailed (mcp_Name t) e)
                        | Inr p \<Rightarrow>
                            Tools_of_server js c server rest
                              (result @
                               [commonTool\<lparr>Tool_Function :=
                                  (Tool_Function commonTool)\<lparr>fn_Parameters := p\<rparr>\<rparr>])))))"

text \<open>
  The outer loop, \<open>range c.servers\<close>. Go visits the entries of a map in an order it
  does not specify: \<open>keys\<close> is the order of this visit, which \<open>range_order\<close> below
  describes.
\<close>

fun Tools_of_servers ::
  "(any, 'd, ParameterSchema) encoding_json \<Rightarrow> Client \<Rightarrow> World \<Rightarrow> string list \<Rightarrow>
   Tool list \<Rightarrow> error + Tool list" where
  "Tools_of_servers js c w [] result = Inr result"
| "Tools_of_servers js c w (k # keys) result =
     (case servers c k of
        None \<Rightarrow> Tools_of_servers js c w keys result
      | Some server \<Rightarrow>
          (case Tools_of_server js c server (ss_Tools (sessions w server)) result of
             Inl e \<Rightarrow> Inl e
           | Inr result' \<Rightarrow> Tools_of_servers js c w keys result'))"

definition range_order :: "Client \<Rightarrow> string list \<Rightarrow> bool" where
  "range_order c keys \<longleftrightarrow> distinct keys \<and> set keys = dom (servers c)"

definition Tools ::
  "(any, 'd, ParameterSchema) encoding_json \<Rightarrow> Client \<Rightarrow> World \<Rightarrow> string list \<Rightarrow>
   error + Tool list" where
  "Tools js c w keys =
     (if dom (servers c) = {} then Inl NoServersConnected
      else case Tools_of_servers js c w keys [] of
             Inl e \<Rightarrow> Inl e
           | Inr result \<Rightarrow> if length result = 0 then Inl NoToolsFound else Inr result)"

text \<open>
  What a listed tool looks like for a native tool \<open>mcpTool\<close> of the connection
  \<open>serverID\<close>: the prefixed name, and an executor holding the identifier and the
  native name.
\<close>

definition listed_as :: "string \<Rightarrow> mcp_Tool \<Rightarrow> Tool \<Rightarrow> bool" where
  "listed_as serverID mcpTool t \<longleftrightarrow>
     Tool_Name t = serverID @ '':'' @ mcp_Name mcpTool \<and>
     fn_Name (Tool_Function t) = serverID @ '':'' @ mcp_Name mcpTool \<and>
     Tool_Description t = mcp_Description mcpTool \<and>
     Tool_Title t = mcp_Title mcpTool \<and>
     Tool_Executor t =
       Some \<lparr>exec_serverID = serverID, exec_toolName = mcp_Name mcpTool,
             exec_originalTool = mcpTool\<rparr>"

text \<open>The native tools of the connections, in the order in which they are visited.\<close>

fun native_tools :: "Client \<Rightarrow> World \<Rightarrow> string list \<Rightarrow> (handle \<times> mcp_Tool) list" where
  "native_tools c w [] = []"
| "native_tools c w (k # keys) =
     (case servers c k of
        None \<Rightarrow> native_tools c w keys
      | Some server \<Rightarrow>
          map (Pair server) (List.map_filter fst (ss_Tools (sessions w server))) @
          native_tools c w keys)"

text \<open>A session reports zero tools: its iterator yields no tool and no error.\<close>

definition reports_no_tools :: "ClientSession \<Rightarrow> bool" where
  "reports_no_tools s \<longleftrightarrow> list_all (\<lambda>(mcpTool, err). mcpTool = None \<and> err = None) (ss_Tools s)"

subsection \<open>Executing a tool\<close>

text \<open>The loop over \<open>result.Content\<close>; \<open>content\<close> is the \<open>strings.Builder\<close>.\<close>

fun write_Content :: "Content list \<Rightarrow> string \<Rightarrow> string" where
  "write_Content [] content = content"
| "write_Content (TextContent text # cs) content = write_Content cs (content @ text)"
| "write_Content (OtherContent (Inr jsonBytes) # cs) content = write_Content cs (content @ jsonBytes)"
| "write_Content (OtherContent (Inl err) # cs) content = write_Content cs content"

text \<open>
  \<open>MCPToolExecutor.Execute\<close>. Besides what it returns, the model lists the calls
  of \<open>CallTool\<close> it makes: the session called and the parameters sent.
\<close>

type_synonym invocation = "handle \<times> CallToolParams"

definition Execute ::
  "MCPToolExecutor \<Rightarrow> Client \<Rightarrow> World \<Rightarrow> arguments \<Rightarrow> (error + string) \<times> invocation list" where
  "Execute e c w arguments =
     (case servers c (exec_serverID e) of
        None \<Rightarrow> (Inl (ServerNotFound (exec_serverID e)), [])
      | Some server \<Rightarrow>
          (let params = \<lparr>params_Name = exec_toolName e, params_Arguments = arguments\<rparr>
           in case ss_CallTool (sessions w server) params of
                Inl err \<Rightarrow> (Inl (CallToolFailed (exec_toolName e) err), [(server, params)])
              | Inr result \<Rightarrow>
                  (case result_Content result of
                     Some cs \<Rightarrow> (Inr (write_Content cs []), [(server, params)])
                   | None \<Rightarrow> (Inr ''Tool executed successfully'', [(server, params)]))))"

text \<open>\<open>Tool.Execute\<close> of \<open>lib/tool\<close>.\<close>

definition Tool_Execute ::
  "Tool \<Rightarrow> Client \<Rightarrow> World \<Rightarrow> arguments \<Rightarrow> (error + string) \<times> invocation list" where
  "Tool_Execute t c w arguments =
     (case Tool_Executor t of
        None \<Rightarrow> (Inl (NoExecutor (Tool_Name t)), [])
      | Some e \<Rightarrow> Execute e c w arguments)"

text \<open>
  What the specification says \<open>Execute\<close> returns: the text of each fragment, a
  fragment that is not text as its JSON form, a fragment that cannot be serialized
  as nothing, all concatenated in order.
\<close>

fun spec_fragment :: "Content \<Rightarrow> string" where
  "spec_fragment (TextContent text) = text"
| "spec_fragment (OtherContent (Inr jsonBytes)) = jsonBytes"
| "spec_fragment (OtherContent (Inl err)) = []"

definition spec_concatenation :: "Content list \<Rightarrow> string" where
  "spec_concatenation cs = concat (map spec_fragment cs)"

text \<open>The specification's split of a display name at its first colon.\<close>

definition spec_split :: "string \<Rightarrow> string \<times> string" where
  "spec_split displayName =
     (takeWhile (\<lambda>x. x \<noteq> CHR '':'') displayName,
      drop 1 (dropWhile (\<lambda>x. x \<noteq> CHR '':'') displayName))"

subsection \<open>Tool calls of a chat response\<close>

text \<open>The parts of \<open>api.ToolCall\<close>, \<open>api.Message\<close> and \<open>api.ChatResponse\<close> that are read.\<close>

record ToolCall =
  Function_Name :: string
  Function_Arguments :: arguments

record Message =
  Role :: string
  Content :: string
  ToolCalls :: "ToolCall list"

record ChatResponse =
  response_Message :: Message

record ollama_Client =
  model :: string
  tools :: "Tool list"

definition SetTools :: "ollama_Client \<Rightarrow> Tool list \<Rightarrow> ollama_Client" where
  "SetTools oc ts = oc\<lparr>tools := ts\<rparr>"

definition ExecuteToolCall ::
  "ollama_Client \<Rightarrow> Client \<Rightarrow> World \<Rightarrow> ToolCall \<Rightarrow> (error + string) \<times> invocation list" where
  "ExecuteToolCall oc c w toolCall =
     (case find (\<lambda>t. fn_Name (Tool_Function t) = Function_Name toolCall) (tools oc) of
        None \<Rightarrow> (Inl (ToolNotFound (Function_Name toolCall)), [])
      | Some targetTool \<Rightarrow>
          (case Tool_Execute targetTool c w (Function_Arguments toolCall) of
             (Inl err, calls) \<Rightarrow> (Inl (ToolExecutionFailed err), calls)
           | (Inr result, calls) \<Rightarrow> (Inr result, calls)))"

text \<open>The loop of \<open>HandleToolCallsInResponse\<close>; \<open>newMessages\<close> is the slice built so far.\<close>

fun HandleToolCalls_loop ::
  "ollama_Client \<Rightarrow> Client \<Rightarrow> World \<Rightarrow> ToolCall list \<Rightarrow> Message list \<Rightarrow> invocation list \<Rightarrow>
   Message list \<times> invocation list" where
  "HandleToolCalls_loop oc c w [] newMessages made = (newMessages, made)"
| "HandleToolCalls_loop oc c w (toolCall # rest) newMessages made =
     (case ExecuteToolCall oc c w toolCall of
        (r, calls) \<Rightarrow>
          (let result = (case r of
                          Inl err \<Rightarrow> ''Tool execution failed: '' @ Error err
                        | Inr result \<Rightarrow> result);
               toolMessage = \<lparr>Role = ''tool'', Content = result, ToolCalls = []\<rparr>
           in HandleToolCalls_loop oc c w rest (newMessages @ [toolMessage]) (made @ calls)))"

definition HandleToolCallsInResponse ::
  "ollama_Client \<Rightarrow> Client \<Rightarrow> World \<Rightarrow> ChatResponse \<Rightarrow>
   (Message list \<times> error option) \<times> invocation list" where
  "HandleToolCallsInResponse oc c w response =
     (if length (ToolCalls (response_Message response)) = 0 then (([], None), [])
      else case HandleToolCalls_loop oc c w (ToolCalls (response_Message response)) [] [] of
             (newMessages, made) \<Rightarrow> ((newMessages, None), made))"

text \<open>What the specification says one result message is.\<close>

definition spec_result_message :: "ollama_Client \<Rightarrow> Client \<Rightarrow> World \<Rightarrow> ToolCall \<Rightarrow> Message" where
  "spec_result_message oc c w toolCall =
     \<lparr>Role = ''tool'',
      Content = (case fst (ExecuteToolCall oc c w toolCall) of
                   Inl err \<Rightarrow> ''Tool execution failed: '' @ Error err
                 | Inr result \<Rightarrow> result),
      ToolCalls = []\<rparr>"

subsection \<open>A registry with two connections\<close>

text \<open>
  Connection \<open>A\<close> offers the tool \<open>ping\<close>, connection \<open>B\<close> the tools \<open>ping\<close> and
  \<open>status\<close>; each answers \<open>ping\<close> with its own name and fails on anything else.
\<close>

definition example_tool :: "string \<Rightarrow> mcp_Tool" where
  "example_tool n =
     \<lparr>mcp_Name = n, mcp_Description = [], mcp_Title = [], mcp_InputSchema = None\<rparr>"

definition example_CallTool :: "string \<Rightarrow> CallToolParams \<Rightarrow> error + CallToolResult" where
  "example_CallTool who p =
     (if params_Name p = ''ping''
      then Inr \<lparr>result_Content = Some [TextContent (who @ '' pong'')], result_IsError = False\<rparr>
      else Inl (External ''unknown tool''))"

definition session_A :: ClientSession where
  "session_A =
     \<lparr>ss_ID = ''A'', ss_Tools = [(Some (example_tool ''ping''), None)],
      ss_CallTool = example_CallTool ''A'', ss_closed = False\<rparr>"

definition session_B :: ClientSession where
  "session_B =
     \<lparr>ss_ID = ''B'',
      ss_Tools = [(Some (example_tool ''ping''), None), (Some (example_tool ''status''), None)],
      ss_CallTool = example_CallTool ''B'', ss_closed = False\<rparr>"

definition epoch :: Time where
  "epoch = \<lparr>unix_sec = 0, zone_offset = 0\<rparr>"

definition attempt_of :: "ClientSession \<Rightarrow> attempt" where
  "attempt_of s = \<lparr>handshake = Inr s, clock = epoch, entropy = []\<rparr>"

text \<open>
  A session whose provider furnishes no identifier, connecting at the Unix epoch in
  a zone one hour east of UTC.
\<close>

definition session_unnamed :: ClientSession where
  "session_unnamed =
     \<lparr>ss_ID = [], ss_Tools = [], ss_CallTool = example_CallTool ''unnamed'', ss_closed = False\<rparr>"

definition one_hour_east :: Time where
  "one_hour_east = \<lparr>unix_sec = 0, zone_offset = 3600\<rparr>"

definition attempt_unnamed :: attempt where
  "attempt_unnamed =
     \<lparr>handshake = Inr session_unnamed, clock = one_hour_east, entropy = [0xde, 0xad, 0xbe, 0xef]\<rparr>"

definition failed_attempt :: attempt where
  "failed_attempt = \<lparr>handshake = Inl (External ''exit status 1''), clock = epoch, entropy = []\<rparr>"

definition world_0 :: World where
  "world_0 = \<lparr>sessions = (\<lambda>h. session_A), next_handle = 0\<rparr>"

definition registry_A :: Client where
  "registry_A = \<lparr>servers = [''A'' \<mapsto> 0], serverIDs = [0 \<mapsto> ''A'']\<rparr>"

definition world_A :: World where
  "world_A = \<lparr>sessions = (\<lambda>h. session_A)(0 := session_A), next_handle = 1\<rparr>"

definition registry_AB :: Client where
  "registry_AB =
     \<lparr>servers = [''A'' \<mapsto> 0, ''B'' \<mapsto> 1], serverIDs = [0 \<mapsto> ''A'', 1 \<mapsto> ''B'']\<rparr>"

definition world_AB :: World where
  "world_AB = \<lparr>sessions = (\<lambda>h. session_A)(0 := session_A, 1 := session_B), next_handle = 2\<rparr>"

text \<open>What \<open>Tools\<close> returns for the native tool \<open>n\<close> of the connection \<open>serverID\<close>.\<close>

definition example_listed :: "string \<Rightarrow> string \<Rightarrow> Tool" where
  "example_listed serverID n = commonTool_literal serverID (serverID @ '':'' @ n) (example_tool n)"

text \<open>
  The same two providers started over command transports: their sessions have no
  identifier, and the connections are registered under generated ones, the first
  at the Unix epoch in UTC, the second in a zone one hour east of it.
\<close>

definition stdio_A :: ClientSession where
  "stdio_A = session_A\<lparr>ss_ID := []\<rparr>"

definition stdio_B :: ClientSession where
  "stdio_B = session_B\<lparr>ss_ID := []\<rparr>"

definition attempt_stdio_A :: attempt where
  "attempt_stdio_A = \<lparr>handshake = Inr stdio_A, clock = epoch, entropy = []\<rparr>"

definition attempt_stdio_B :: attempt where
  "attempt_stdio_B =
     \<lparr>handshake = Inr stdio_B, clock = one_hour_east, entropy = [0xde, 0xad, 0xbe, 0xef]\<rparr>"

definition id_A :: string where
  "id_A = ''mcp-server-19700101-000000-00000000''"

definition id_B :: string where
  "id_B = ''mcp-server-19700101-010000-deadbeef''"

definition registry_stdio :: Client where
  "registry_stdio =
     \<lparr>servers = [id_A \<mapsto> 0, id_B \<mapsto> 1], serverIDs = [0 \<mapsto> id_A, 1 \<mapsto> id_B]\<rparr>"

definition world_stdio :: World where
  "world_stdio = \<lparr>sessions = (\<lambda>h. session_A)(0 := stdio_A, 1 := stdio_B), next_handle = 2\<rparr>"

text \<open>A registry whose only connection offers no tool.\<close>

definition session_quiet :: ClientSession where
  "session_quiet =
     \<lparr>ss_ID = ''quiet'', ss_Tools = [], ss_CallTool = example_CallTool ''quiet'', ss_closed = False\<rparr>"

definition registry_quiet :: Client where
  "registry_quiet = \<lparr>servers = [''quiet'' \<mapsto> 0], serverIDs = [0 \<mapsto> ''quiet'']\<rparr>"

definition world_quiet :: World where
  "world_quiet = \<lparr>sessions = (\<lambda>h. session_quiet), next_handle = 1\<rparr>"

text \<open>
  A registry whose only connection \<open>S\<close> answers every call with the result \<open>r\<close>, and
  the executor of its tool \<open>run\<close>.
\<close>

definition session_returning :: "CallToolResult \<Rightarrow> ClientSession" where
  "session_returning r =
     \<lparr>ss_ID = ''S'', ss_Tools = [(Some (example_tool ''run''), None)],
      ss_CallTool = (\<lambda>p. Inr r), ss_closed = False\<rparr>"

definition registry_S :: Client where
  "registry_S = \<lparr>servers = [''S'' \<mapsto> 0], serverIDs = [0 \<mapsto> ''S'']\<rparr>"

definition world_S :: "CallToolResult \<Rightarrow> World" where
  "world_S r = \<lparr>sessions = (\<lambda>h. session_returning r), next_handle = 1\<rparr>"

definition executor_S_run :: MCPToolExecutor where
  "executor_S_run =
     \<lparr>exec_serverID = ''S'', exec_toolName = ''run'', exec_originalTool = example_tool ''run''\<rparr>"

text \<open>A result without content, and a result that reports a tool error in four fragments.\<close>

definition result_without_content :: CallToolResult where
  "result_without_content = \<lparr>result_Content = None, result_IsError = False\<rparr>"

definition result_with_error :: CallToolResult where
  "result_with_error =
     \<lparr>result_Content =
        Some [TextContent ''disk full'', OtherContent (Inr ''{}''),
              OtherContent (Inl (External ''unsupported value'')), TextContent ''!''],
      result_IsError = True\<rparr>"

text \<open>
  An inference client holding the tools of the registry with the connections \<open>A\<close>
  and \<open>B\<close>, and a response that asks for \<open>B:ping\<close> and then for \<open>B:status\<close>.
\<close>

definition example_ollama :: ollama_Client where
  "example_ollama =
     \<lparr>model = ''qwen3:14b'',
      tools = [example_listed ''A'' ''ping'', example_listed ''B'' ''ping'',
               example_listed ''B'' ''status'']\<rparr>"

definition example_response :: ChatResponse where
  "example_response =
     \<lparr>response_Message =
        \<lparr>Role = ''assistant'', Content = [],
         ToolCalls = [\<lparr>Function_Name = ''B:ping'', Function_Arguments = []\<rparr>,
                      \<lparr>Function_Name = ''B:status'', Function_Arguments = []\<rparr>]\<rparr>\<rparr>"

text \<open>
  A schema with a required field, two properties, an enumeration and a nested item
  schema.
\<close>

definition example_schema :: ParameterSchema where
  "example_schema =
     \<lparr>schema_Type = ''object'',
      schema_Required = [''path''],
      schema_Properties =
        fmupd ''path''
          \<lparr>prop_Type = ''string'', prop_Description = ''file to open'', prop_Items = AnyNil,
           prop_Enum = []\<rparr>
          (fmupd ''modes''
             \<lparr>prop_Type = ''array'', prop_Description = [],
              prop_Items = AnyMap [(''type'', AnyString ''string'')],
              prop_Enum = [AnyString ''r'', AnyString ''w'']\<rparr>
             fmempty),
      schema_Defs = AnyNil,
      schema_Items = AnyNil\<rparr>"

definition example_config :: "string \<Rightarrow> Config" where
  "example_config n =
     \<lparr>Config_Name = n, Config_Command = ''npx'', Config_Args = [], Config_Environment = []\<rparr>"

text \<open>An \<open>encoding/json\<close> that copies nothing; the example tools carry no schema.\<close>

definition example_json :: "(any, string, ParameterSchema) encoding_json" where
  "example_json =
     \<lparr>Marshal = (\<lambda>schema. Inr ''{}''), Unmarshal = (\<lambda>data to. Inr to),
      type_from = ''*jsonschema.Schema'', type_to = ''*tool.ParameterSchema''\<rparr>"

section \<open>Properties\<close>

subsection \<open>Connecting\<close>


lemma next_handle_Close [simp]: "next_handle (Close w h) = next_handle w"
  by (simp add: Close_def)

lemma next_handle_allocate [simp]: "next_handle (allocate w s) = Suc (next_handle w)"
  by (simp add: allocate_def)

lemma sessions_Close_other [simp]: "h \<noteq> ss \<Longrightarrow> sessions (Close w ss) h = sessions w h"
  by (simp add: Close_def)

lemma sessions_Close_same [simp]: "sessions (Close w ss) ss = (sessions w ss)\<lparr>ss_closed := True\<rparr>"
  by (simp add: Close_def)

lemma sessions_allocate_other [simp]: "h \<noteq> next_handle w \<Longrightarrow> sessions (allocate w s) h = sessions w h"
  by (simp add: allocate_def)

lemma sessions_allocate_same [simp]: "sessions (allocate w s) (next_handle w) = s"
  by (simp add: allocate_def)


lemma connect_handshake_failed:
  "handshake a = Inl err \<Longrightarrow> connectWithTransport c w a = (Some (ConnectFailed err), c, w)"
  by (simp add: connectWithTransport_def mcp_Client_Connect_def)


lemma connect_duplicate:
  "handshake a = Inr s \<Longrightarrow> resulting_id a = Some i \<Longrightarrow> servers c i = Some other \<Longrightarrow>
   connectWithTransport c w a = (Some (ServerExists i), c, Close (allocate w s) (next_handle w))"
  by (simp add: connectWithTransport_def mcp_Client_Connect_def resulting_id_def Let_def)

lemma connect_registered:
  "handshake a = Inr s \<Longrightarrow> resulting_id a = Some i \<Longrightarrow> servers c i = None \<Longrightarrow>
   connectWithTransport c w a =
     (None, c\<lparr>servers := (servers c)(i \<mapsto> next_handle w), serverIDs := (serverIDs c)(next_handle w \<mapsto> i)\<rparr>, allocate w s)"
  by (simp add: connectWithTransport_def mcp_Client_Connect_def resulting_id_def Let_def)

lemma connect_cases:
  obtains (failed) err where "handshake a = Inl err" "resulting_id a = None"
      "connectWithTransport c w a = (Some (ConnectFailed err), c, w)"
  | (duplicate) s i other where "handshake a = Inr s" "resulting_id a = Some i" "servers c i = Some other"
      "connectWithTransport c w a = (Some (ServerExists i), c, Close (allocate w s) (next_handle w))"
  | (registered) s i where "handshake a = Inr s" "resulting_id a = Some i" "servers c i = None"
      "connectWithTransport c w a =
        (None, c\<lparr>servers := (servers c)(i \<mapsto> next_handle w), serverIDs := (serverIDs c)(next_handle w \<mapsto> i)\<rparr>, allocate w s)"
proof (cases "handshake a")
  case (Inl err)
  then show ?thesis using failed connect_handshake_failed by (simp add: resulting_id_def)
next
  case (Inr s)
  then obtain i where i: "resulting_id a = Some i" by (simp add: resulting_id_def)
  show ?thesis
  proof (cases "servers c i")
    case None
    then show ?thesis using registered Inr i connect_registered by blast
  next
    case (Some other)
    then show ?thesis using duplicate Inr i connect_duplicate by blast
  qed
qed

lemma inverse_maps_fwd: "inverse_maps c \<Longrightarrow> servers c i = Some ss \<Longrightarrow> serverIDs c ss = Some i"
  unfolding inverse_maps_def by blast

lemma inverse_maps_bwd: "inverse_maps c \<Longrightarrow> serverIDs c ss = Some i \<Longrightarrow> servers c i = Some ss"
  unfolding inverse_maps_def by blast

lemma inverse_maps_upd:
  assumes "inverse_maps c" "servers c i = None" "serverIDs c h = None"
  shows "inverse_maps (c\<lparr>servers := (servers c)(i \<mapsto> h), serverIDs := (serverIDs c)(h \<mapsto> i)\<rparr>)"
  unfolding inverse_maps_def
proof (intro conjI allI impI)
  fix j ss
  assume "servers (c\<lparr>servers := (servers c)(i \<mapsto> h), serverIDs := (serverIDs c)(h \<mapsto> i)\<rparr>) j = Some ss"
  then have "(j = i \<and> ss = h) \<or> (j \<noteq> i \<and> servers c j = Some ss)"
    by (simp split: if_splits)
  then show "serverIDs (c\<lparr>servers := (servers c)(i \<mapsto> h), serverIDs := (serverIDs c)(h \<mapsto> i)\<rparr>) ss = Some j"
  proof
    assume "j = i \<and> ss = h" then show ?thesis by simp
  next
    assume a: "j \<noteq> i \<and> servers c j = Some ss"
    then have "serverIDs c ss = Some j" using assms(1) by (blast intro: inverse_maps_fwd)
    moreover from this have "ss \<noteq> h" using assms(3) by auto
    ultimately show ?thesis by simp
  qed
next
  fix ss j
  assume "serverIDs (c\<lparr>servers := (servers c)(i \<mapsto> h), serverIDs := (serverIDs c)(h \<mapsto> i)\<rparr>) ss = Some j"
  then have "(ss = h \<and> j = i) \<or> (ss \<noteq> h \<and> serverIDs c ss = Some j)"
    by (simp split: if_splits)
  then show "servers (c\<lparr>servers := (servers c)(i \<mapsto> h), serverIDs := (serverIDs c)(h \<mapsto> i)\<rparr>) j = Some ss"
  proof
    assume "ss = h \<and> j = i" then show ?thesis by simp
  next
    assume a: "ss \<noteq> h \<and> serverIDs c ss = Some j"
    then have "servers c j = Some ss" using assms(1) by (blast intro: inverse_maps_bwd)
    moreover from this have "j \<noteq> i" using assms(2) by auto
    ultimately show ?thesis by simp
  qed
qed

lemma registry_inv_fresh: "registry_inv c w \<Longrightarrow> serverIDs c (next_handle w) = None"
proof (rule ccontr)
  assume inv: "registry_inv c w" and "serverIDs c (next_handle w) \<noteq> None"
  then have "next_handle w \<in> dom (serverIDs c)" by (simp add: dom_def)
  with inv have "next_handle w < next_handle w" unfolding registry_inv_def by blast
  then show False by simp
qed

lemma registry_inv_world:
  assumes "registry_inv c w" "next_handle w \<le> next_handle w'"
  shows "registry_inv c w'"
proof -
  have "\<forall>ss \<in> dom (serverIDs c). ss < next_handle w'"
  proof
    fix ss assume "ss \<in> dom (serverIDs c)"
    with assms(1) have "ss < next_handle w" unfolding registry_inv_def by blast
    with assms(2) show "ss < next_handle w'" by simp
  qed
  with assms(1) show ?thesis by (simp add: registry_inv_def)
qed

lemma registry_inv_connect:
  assumes "registry_inv c w" and "connectWithTransport c w a = (r, c', w')"
  shows "registry_inv c' w'"
proof (cases rule: connect_cases [of a c w])
  case (failed err)
  from failed(3) assms(2) have "(r, c', w') = (Some (ConnectFailed err), c, w)" by simp
  with assms(1) show ?thesis by simp
next
  case (duplicate s i other)
  from duplicate(4) assms(2)
  have "(r, c', w') = (Some (ServerExists i), c, Close (allocate w s) (next_handle w))" by simp
  then have "c' = c" and "w' = Close (allocate w s) (next_handle w)" by simp_all
  then have "c' = c" and "next_handle w \<le> next_handle w'" by simp_all
  with assms(1) show ?thesis using registry_inv_world by simp
next
  case (registered s i)
  have fresh: "serverIDs c (next_handle w) = None"
    using assms(1) by (rule registry_inv_fresh)
  have inv: "inverse_maps c" using assms(1) unfolding registry_inv_def by blast
  from registered(4) assms(2)
  have "(r, c', w') = (None, c\<lparr>servers := (servers c)(i \<mapsto> next_handle w), serverIDs := (serverIDs c)(next_handle w \<mapsto> i)\<rparr>, allocate w s)" by simp
  then have c': "c' = c\<lparr>servers := (servers c)(i \<mapsto> next_handle w), serverIDs := (serverIDs c)(next_handle w \<mapsto> i)\<rparr>"
    and w': "w' = allocate w s" by simp_all
  have "inverse_maps c'"
    unfolding c' using inv registered(3) fresh by (rule inverse_maps_upd)
  moreover have "finite (dom (servers c'))" using assms(1) by (simp add: c' registry_inv_def)
  moreover have "\<forall>ss \<in> dom (serverIDs c'). ss < next_handle w'"
  proof
    fix ss assume "ss \<in> dom (serverIDs c')"
    then have "ss = next_handle w \<or> ss \<in> dom (serverIDs c)" by (auto simp: c')
    then show "ss < next_handle w'"
      using assms(1) unfolding registry_inv_def w' by (auto intro: less_SucI)
  qed
  ultimately show ?thesis by (simp add: registry_inv_def)
qed

lemma registry_inv_NewClient: "registry_inv (NewClient name version) w"
  by (simp add: registry_inv_def inverse_maps_def NewClient_def)

lemma reachable_inv: "reachable c w \<Longrightarrow> registry_inv c w"
  by (induction rule: reachable.induct) (auto intro: registry_inv_NewClient registry_inv_connect)

lemma registry_inv_registered_old:
  assumes "registry_inv c w" "servers c i = Some h"
  shows "h < next_handle w"
proof -
  from assms have "serverIDs c h = Some i" unfolding registry_inv_def by (blast intro: inverse_maps_fwd)
  then have "h \<in> dom (serverIDs c)" by blast
  with assms(1) show ?thesis unfolding registry_inv_def by blast
qed

lemma connect_keeps_servers:
  assumes "connectWithTransport c w a = (r, c', w')" "servers c i = Some h"
  shows "servers c' i = Some h"
proof (cases rule: connect_cases [of a c w])
  case (failed err)
  with assms show ?thesis by auto
next
  case (duplicate s j other)
  with assms show ?thesis by auto
next
  case (registered s j)
  with assms have "j \<noteq> i" by auto
  with registered assms show ?thesis by auto
qed

lemma connect_size:
  assumes "finite (dom (servers c))" "connectWithTransport c w a = (r, c', w')"
  shows "card (dom (servers c')) = card (dom (servers c)) + (if r = None then 1 else 0)"
proof (cases rule: connect_cases [of a c w])
  case (failed err)
  with assms show ?thesis by auto
next
  case (duplicate s j other)
  with assms show ?thesis by auto
next
  case (registered s j)
  then have "j \<notin> dom (servers c)" by blast
  with registered assms show ?thesis by auto
qed

lemma connect_each_size:
  "registry_inv c w \<Longrightarrow> connect_each c w as = (rs, c', w') \<Longrightarrow>
   card (dom (servers c')) = card (dom (servers c)) + length (filter (\<lambda>r. r = None) rs)"
proof (induction as arbitrary: c w rs)
  case Nil
  then show ?case by simp
next
  case (Cons a as)
  obtain r c1 w1 where one: "connectWithTransport c w a = (r, c1, w1)"
    by (cases "connectWithTransport c w a") auto
  obtain rs1 where rest: "connect_each c1 w1 as = (rs1, c', w')" and rs: "rs = r # rs1"
    using Cons.prems(2) one by (auto split: prod.splits)
  have inv1: "registry_inv c1 w1" using Cons.prems(1) one by (rule registry_inv_connect)
  have fin: "finite (dom (servers c))" using Cons.prems(1) unfolding registry_inv_def by blast
  have "card (dom (servers c1)) = card (dom (servers c)) + (if r = None then 1 else 0)"
    using fin one by (rule connect_size)
  moreover have "card (dom (servers c')) = card (dom (servers c1)) + length (filter (\<lambda>r. r = None) rs1)"
    using inv1 rest by (rule Cons.IH)
  ultimately show ?case by (simp add: rs)
qed


lemma connect_each_keeps_servers:
  "connect_each c w as = (rs, c', w') \<Longrightarrow> servers c i = Some h \<Longrightarrow> servers c' i = Some h"
proof (induction as arbitrary: c w rs)
  case Nil
  then show ?case by simp
next
  case (Cons a as)
  obtain r c1 w1 where one: "connectWithTransport c w a = (r, c1, w1)"
    by (cases "connectWithTransport c w a") auto
  obtain rs1 where rest: "connect_each c1 w1 as = (rs1, c', w')"
    using Cons.prems(1) one by (auto split: prod.splits)
  have "servers c1 i = Some h" using one Cons.prems(2) by (rule connect_keeps_servers)
  with rest show ?case by (rule Cons.IH)
qed

lemma connect_dom:
  assumes "connectWithTransport c w a = (r, c', w')"
  shows "dom (servers c') \<subseteq> dom (servers c) \<union> set_option (resulting_id a)"
proof (cases rule: connect_cases [of a c w])
  case (failed err)
  with assms show ?thesis by auto
next
  case (duplicate s j other)
  with assms show ?thesis by auto
next
  case (registered s j)
  with assms show ?thesis by auto
qed

lemma connect_each_distinct:
  "distinct (List.map_filter resulting_id as) \<Longrightarrow>
   dom (servers c) \<inter> set (List.map_filter resulting_id as) = {} \<Longrightarrow>
   connect_each c w as = (rs, c', w') \<Longrightarrow>
   length (filter (\<lambda>r. r = None) rs) = length (List.map_filter resulting_id as)"
proof (induction as arbitrary: c w rs)
  case Nil
  then show ?case by (simp add: List.map_filter_simps)
next
  case (Cons a as)
  obtain r c1 w1 where one: "connectWithTransport c w a = (r, c1, w1)"
    by (cases "connectWithTransport c w a") auto
  obtain rs1 where rest: "connect_each c1 w1 as = (rs1, c', w')" and rs: "rs = r # rs1"
    using Cons.prems(3) one by (auto split: prod.splits)
  have dist: "distinct (List.map_filter resulting_id as)"
    using Cons.prems(1) by (auto simp: List.map_filter_simps split: option.splits)
  have sub: "dom (servers c1) \<subseteq> dom (servers c) \<union> set_option (resulting_id a)"
    using one by (rule connect_dom)
  have disj: "dom (servers c1) \<inter> set (List.map_filter resulting_id as) = {}"
  proof -
    have "set (List.map_filter resulting_id as) \<subseteq> set (List.map_filter resulting_id (a # as))"
      by (auto simp: List.map_filter_simps split: option.splits)
    moreover have "set_option (resulting_id a) \<inter> set (List.map_filter resulting_id as) = {}"
      using Cons.prems(1) by (auto simp: List.map_filter_simps split: option.splits)
    ultimately show ?thesis using sub Cons.prems(2) by blast
  qed
  have IH: "length (filter (\<lambda>r. r = None) rs1) = length (List.map_filter resulting_id as)"
    using dist disj rest by (rule Cons.IH)
  show ?case
  proof (cases rule: connect_cases [of a c w])
    case (failed err)
    with one have "r = Some (ConnectFailed err)" by simp
    with failed IH show ?thesis by (simp add: rs List.map_filter_simps)
  next
    case (duplicate s j other)
    then have "j \<in> dom (servers c)" "j \<in> set (List.map_filter resulting_id (a # as))"
      by (auto simp: List.map_filter_simps)
    with Cons.prems(2) show ?thesis by blast
  next
    case (registered s j)
    with one have "r = None" by simp
    with registered IH show ?thesis by (simp add: rs List.map_filter_simps)
  qed
qed

lemma ConnectFromConfigs_abort:
  "ConnectFromConfigs c w pre = (None, c1, w1) \<Longrightarrow>
   ConnectFromConfig c1 w1 config a = (Some err, c2, w2) \<Longrightarrow>
   ConnectFromConfigs c w (pre @ (config, a) # rest) =
     (Some (ConnectServerFailed (Config_Name config) err), c2, w2)"
proof (induction pre arbitrary: c w)
  case Nil
  then show ?case by simp
next
  case (Cons x pre)
  obtain cfg b where x: "x = (cfg, b)" by (cases x)
  obtain r c' w' where one: "ConnectFromConfig c w cfg b = (r, c', w')"
    by (cases "ConnectFromConfig c w cfg b") auto
  show ?case
  proof (cases r)
    case None
    with Cons.prems(1) one x have "ConnectFromConfigs c' w' pre = (None, c1, w1)" by simp
    then have "ConnectFromConfigs c' w' (pre @ (config, a) # rest) =
        (Some (ConnectServerFailed (Config_Name config) err), c2, w2)"
      using Cons.prems(2) by (rule Cons.IH)
    with None one x show ?thesis by simp
  next
    case (Some e)
    with Cons.prems(1) one x show ?thesis by simp
  qed
qed

lemma ConnectFromConfigs_all:
  "connect_each c w (map snd configs) = (rs, c', w') \<Longrightarrow> \<forall>r \<in> set rs. r = None \<Longrightarrow>
   ConnectFromConfigs c w configs = (None, c', w')"
proof (induction configs arbitrary: c w rs)
  case Nil
  then show ?case by simp
next
  case (Cons x configs)
  obtain cfg b where x: "x = (cfg, b)" by (cases x)
  obtain r c1 w1 where one: "connectWithTransport c w b = (r, c1, w1)"
    by (cases "connectWithTransport c w b") auto
  obtain rs1 where rest: "connect_each c1 w1 (map snd configs) = (rs1, c', w')" and rs: "rs = r # rs1"
    using Cons.prems(1) one x by (auto split: prod.splits)
  from Cons.prems(2) rs have r: "r = None" and all: "\<forall>r \<in> set rs1. r = None" by simp_all
  have "ConnectFromConfigs c1 w1 configs = (None, c', w')"
    using rest all by (rule Cons.IH)
  with one r x show ?case by (simp add: ConnectFromConfig_def ConnectWithCommand_def)
qed

lemma connect_each_registered:
  "connect_each c w as = (rs, c', w') \<Longrightarrow> \<forall>r \<in> set rs. r = None \<Longrightarrow> a \<in> set as \<Longrightarrow>
   \<exists>i h. resulting_id a = Some i \<and> servers c' i = Some h"
proof (induction as arbitrary: c w rs)
  case Nil
  then show ?case by simp
next
  case (Cons b as)
  obtain r c1 w1 where one: "connectWithTransport c w b = (r, c1, w1)"
    by (cases "connectWithTransport c w b") auto
  obtain rs1 where rest: "connect_each c1 w1 as = (rs1, c', w')" and rs: "rs = r # rs1"
    using Cons.prems(1) one by (auto split: prod.splits)
  from Cons.prems(2) rs have r: "r = None" and all: "\<forall>r \<in> set rs1. r = None" by simp_all
  show ?case
  proof (cases "a = b")
    case True
    show ?thesis
    proof (cases rule: connect_cases [of b c w])
      case (failed err)
      with one r show ?thesis by simp
    next
      case (duplicate s j other)
      with one r show ?thesis by simp
    next
      case (registered s j)
      with one have "servers c1 j = Some (next_handle w)" by auto
      with rest have "servers c' j = Some (next_handle w)" by (rule connect_each_keeps_servers)
      with registered True show ?thesis by blast
    qed
  next
    case False
    with Cons.prems(3) have "a \<in> set as" by simp
    with rest all show ?thesis by (rule Cons.IH)
  qed
qed



lemma connect_error_keeps_registry:
  assumes "connectWithTransport c w a = (Some err, c', w')"
  shows "c' = c"
proof (cases rule: connect_cases [of a c w])
  case (failed e)
  with assms show ?thesis by auto
next
  case (duplicate s j other)
  with assms show ?thesis by auto
next
  case (registered s j)
  with assms show ?thesis by auto
qed

lemma generateServerID_given [simp]: "originalID \<noteq> [] \<Longrightarrow> generateServerID now rnd originalID = originalID"
  by (simp add: generateServerID_def)

lemma resulting_id_attempt_of [simp]:
  "ss_ID s \<noteq> [] \<Longrightarrow> resulting_id (attempt_of s) = Some (ss_ID s)"
  by (simp add: resulting_id_def attempt_of_def)

lemma ss_ID_session_A [simp]: "ss_ID session_A = ''A''"
  by (simp add: session_A_def)

lemma ss_ID_session_B [simp]: "ss_ID session_B = ''B''"
  by (simp add: session_B_def)

lemma handshake_attempt_of [simp]: "handshake (attempt_of s) = Inr s"
  by (simp add: attempt_of_def)

lemma connect_A:
  "connectWithTransport (NewClient ''ttobot'' ''1.0.0'') world_0 (attempt_of session_A) =
     (None, registry_A, world_A)"
  using connect_registered [of "attempt_of session_A" session_A "''A''" "NewClient ''ttobot'' ''1.0.0''" world_0]
  by (simp add: allocate_def NewClient_def world_0_def registry_A_def world_A_def)

lemma connect_B:
  "connectWithTransport registry_A world_A (attempt_of session_B) = (None, registry_AB, world_AB)"
  using connect_registered [of "attempt_of session_B" session_B "''B''" registry_A world_A]
  by (simp add: allocate_def registry_AB_def world_AB_def registry_A_def world_A_def)

lemma connect_failed_attempt:
  "connectWithTransport c w failed_attempt = (Some (ConnectFailed (External ''exit status 1'')), c, w)"
  by (rule connect_handshake_failed) (simp add: failed_attempt_def)

lemma connect_each_AB:
  "connect_each (NewClient ''ttobot'' ''1.0.0'') world_0 [attempt_of session_A, attempt_of session_B] =
     ([None, None], registry_AB, world_AB)"
  by (simp add: connect_A connect_B)

lemma reachable_AB: "reachable registry_AB world_AB"
  using reachable.step [OF reachable.step [OF reachable.init connect_A] connect_B] .

lemma registry_inv_AB: "registry_inv registry_AB world_AB"
  using reachable_AB by (rule reachable_inv)

lemma connect_A_again:
  "connectWithTransport registry_AB world_AB (attempt_of session_A) =
     (Some (ServerExists ''A''), registry_AB, Close (allocate world_AB session_A) 2)"
  using connect_duplicate [of "attempt_of session_A" session_A "''A''" registry_AB 0 world_AB]
  by (simp add: registry_AB_def world_AB_def)

subsection \<open>The two maps of the registry\<close>

text \<open>
  Claim C10. After any sequence of connection attempts, successful, failed or
  rejected as duplicates, the two maps of the registry are inverse to each other:
  the session stored under an identifier is mapped back to that identifier, and the
  identifier stored for a session is mapped to that session. Every attempt keeps
  this (together with the fact that registered sessions are allocated ones), and an
  attempt rejected as a duplicate leaves both maps as they were.
\<close>

theorem registry_maps_stay_inverse:
  "(reachable c w \<longrightarrow> registry_inv c w \<and> inverse_maps c) \<and>
   (registry_inv c w \<and> connectWithTransport c w a = (r, c', w') \<longrightarrow>
      registry_inv c' w' \<and> inverse_maps c') \<and>
   (connectWithTransport c w a = (Some (ServerExists i), c1, w1) \<longrightarrow>
      servers c1 = servers c \<and> serverIDs c1 = serverIDs c)"
proof (intro conjI impI)
  assume "reachable c w"
  then show "registry_inv c w" by (rule reachable_inv)
  then show "inverse_maps c" unfolding registry_inv_def by blast
next
  assume "registry_inv c w \<and> connectWithTransport c w a = (r, c', w')"
  then have "registry_inv c w" and "connectWithTransport c w a = (r, c', w')" by blast+
  then show "registry_inv c' w'" by (rule registry_inv_connect)
  then show "inverse_maps c'" unfolding registry_inv_def by blast
next
  assume "connectWithTransport c w a = (Some (ServerExists i), c1, w1)"
  then have "c1 = c" by (rule connect_error_keeps_registry)
  then show "servers c1 = servers c" and "serverIDs c1 = serverIDs c" by simp_all
qed

theorem registry_maps_stay_inverse_witness:
  "reachable registry_AB world_AB \<and> registry_inv registry_AB world_AB \<and> inverse_maps registry_AB \<and>
   connectWithTransport registry_AB world_AB (attempt_of session_A) =
     (Some (ServerExists ''A''), registry_AB, Close (allocate world_AB session_A) 2) \<and>
   registry_inv registry_AB (Close (allocate world_AB session_A) 2) \<and>
   servers registry_AB ''A'' = Some 0 \<and> serverIDs registry_AB 0 = Some ''A''"
  using registry_maps_stay_inverse [of registry_AB world_AB "attempt_of session_A"
      "Some (ServerExists ''A'')" registry_AB "Close (allocate world_AB session_A) 2" "''A''"
      registry_AB "Close (allocate world_AB session_A) 2"]
    reachable_AB connect_A_again
  by (simp add: registry_AB_def)



subsection \<open>Duplicate identifiers\<close>

text \<open>
  Claim C2. When the identifier that a connection attempt leads to is already in
  the registry, the new session is closed at once, the attempt fails with the error
  "server with ID ... already exists" and the registry is returned as it was: the
  session registered before under that identifier is still there and its session
  object is untouched. And for a sequence of attempts from a new registry whose
  resulting identifiers are distinct, the size of the registry is the number of
  attempts that returned no error, which is the number of handshakes that succeeded.
\<close>

theorem duplicate_id_rejected:
  "(registry_inv c w \<and> handshake a = Inr s \<and> resulting_id a = Some i \<and> servers c i = Some old \<longrightarrow>
      (\<exists>w'. connectWithTransport c w a = (Some (ServerExists i), c, w') \<and>
            sessions w' (next_handle w) = s\<lparr>ss_closed := True\<rparr> \<and>
            sessions w' old = sessions w old)) \<and>
   (distinct (List.map_filter resulting_id as) \<and>
    connect_each (NewClient name version) w0 as = (rs, c1, w1) \<longrightarrow>
      card (dom (servers c1)) = length (filter (\<lambda>r. r = None) rs) \<and>
      length (filter (\<lambda>r. r = None) rs) = length (List.map_filter resulting_id as))"
proof (intro conjI impI)
  assume "registry_inv c w \<and> handshake a = Inr s \<and> resulting_id a = Some i \<and> servers c i = Some old"
  then have inv: "registry_inv c w" and hs: "handshake a = Inr s"
    and i: "resulting_id a = Some i" and old: "servers c i = Some old" by blast+
  have run: "connectWithTransport c w a =
      (Some (ServerExists i), c, Close (allocate w s) (next_handle w))"
    using hs i old by (rule connect_duplicate)
  have "old < next_handle w" using inv old by (rule registry_inv_registered_old)
  then have "sessions (Close (allocate w s) (next_handle w)) old = sessions w old" by simp
  moreover have "sessions (Close (allocate w s) (next_handle w)) (next_handle w) = s\<lparr>ss_closed := True\<rparr>"
    by simp
  ultimately show "\<exists>w'. connectWithTransport c w a = (Some (ServerExists i), c, w') \<and>
      sessions w' (next_handle w) = s\<lparr>ss_closed := True\<rparr> \<and> sessions w' old = sessions w old"
    using run by blast
next
  assume "distinct (List.map_filter resulting_id as) \<and>
    connect_each (NewClient name version) w0 as = (rs, c1, w1)"
  then have dist: "distinct (List.map_filter resulting_id as)"
    and run: "connect_each (NewClient name version) w0 as = (rs, c1, w1)" by blast+
  have "card (dom (servers c1)) =
      card (dom (servers (NewClient name version))) + length (filter (\<lambda>r. r = None) rs)"
    using registry_inv_NewClient run by (rule connect_each_size)
  then show "card (dom (servers c1)) = length (filter (\<lambda>r. r = None) rs)"
    by (simp add: NewClient_def)
  have "dom (servers (NewClient name version)) \<inter> set (List.map_filter resulting_id as) = {}"
    by (simp add: NewClient_def)
  with dist show "length (filter (\<lambda>r. r = None) rs) = length (List.map_filter resulting_id as)"
    using run by (rule connect_each_distinct)
qed

theorem duplicate_id_rejected_witness:
  "registry_inv registry_AB world_AB \<and> handshake (attempt_of session_A) = Inr session_A \<and>
   resulting_id (attempt_of session_A) = Some ''A'' \<and> servers registry_AB ''A'' = Some 0 \<and>
   (\<exists>w'. connectWithTransport registry_AB world_AB (attempt_of session_A) =
            (Some (ServerExists ''A''), registry_AB, w') \<and>
         sessions w' (next_handle world_AB) = session_A\<lparr>ss_closed := True\<rparr> \<and>
         sessions w' 0 = sessions world_AB 0) \<and>
   distinct (List.map_filter resulting_id [attempt_of session_A, failed_attempt, attempt_of session_B]) \<and>
   card (dom (servers registry_AB)) = 2"
proof -
  have run: "connect_each (NewClient ''ttobot'' ''1.0.0'') world_0
      [attempt_of session_A, failed_attempt, attempt_of session_B] =
      ([None, Some (ConnectFailed (External ''exit status 1'')), None], registry_AB, world_AB)"
    by (simp add: connect_A connect_B connect_failed_attempt)
  have ids: "List.map_filter resulting_id [attempt_of session_A, failed_attempt, attempt_of session_B] = [''A'', ''B'']"
    by (simp add: List.map_filter_simps resulting_id_def failed_attempt_def attempt_of_def)
  have reg: "servers registry_AB ''A'' = Some 0" by (simp add: registry_AB_def)
  have hs: "handshake (attempt_of session_A) = Inr session_A" by simp
  have rid: "resulting_id (attempt_of session_A) = Some ''A''" by simp
  have dist: "distinct (List.map_filter resulting_id [attempt_of session_A, failed_attempt, attempt_of session_B])"
    unfolding ids by simp
  note inst = duplicate_id_rejected [of registry_AB world_AB "attempt_of session_A" session_A "''A''" 0
        "[attempt_of session_A, failed_attempt, attempt_of session_B]" "''ttobot''" "''1.0.0''" world_0
        "[None, Some (ConnectFailed (External ''exit status 1'')), None]" registry_AB world_AB]
  have rejected: "\<exists>w'. connectWithTransport registry_AB world_AB (attempt_of session_A) =
            (Some (ServerExists ''A''), registry_AB, w') \<and>
         sessions w' (next_handle world_AB) = session_A\<lparr>ss_closed := True\<rparr> \<and>
         sessions w' 0 = sessions world_AB 0"
    using inst registry_inv_AB hs rid reg by blast
  have "card (dom (servers registry_AB)) =
      length (filter (\<lambda>r. r = None) [None, Some (ConnectFailed (External ''exit status 1'')), None])"
    using inst dist run by blast
  then have size: "card (dom (servers registry_AB)) = 2" by simp
  show ?thesis using registry_inv_AB hs rid reg rejected dist size by blast
qed

subsection \<open>Connecting from a list of configurations\<close>

text \<open>
  Claim C9. \<open>ConnectFromConfigs\<close> connects the configurations one after the other,
  in order. When the configurations before one have all connected and that one
  fails, its error is returned, wrapped with the name of its configuration, and the
  result does not depend on the configurations after it: registry and world are as
  the failing attempt left them. When every attempt succeeds, no error is returned,
  the final state is that of the successive attempts, and the identifier of every
  configuration's connection is registered.
\<close>

theorem first_failure_aborts:
  "(connect_each c w (map snd pre) = (rs, c1, w1) \<and> (\<forall>r \<in> set rs. r = None) \<and>
    connectWithTransport c1 w1 a = (Some err, c2, w2) \<longrightarrow>
      ConnectFromConfigs c w (pre @ (config, a) # rest) =
        (Some (ConnectServerFailed (Config_Name config) err), c1, w2)) \<and>
   (connect_each c w (map snd configs) = (rs', c', w') \<and> (\<forall>r \<in> set rs'. r = None) \<longrightarrow>
      ConnectFromConfigs c w configs = (None, c', w') \<and>
      (\<forall>(config, a) \<in> set configs. \<exists>i ss. resulting_id a = Some i \<and> servers c' i = Some ss))"
proof (intro conjI impI)
  assume "connect_each c w (map snd pre) = (rs, c1, w1) \<and> (\<forall>r \<in> set rs. r = None) \<and>
    connectWithTransport c1 w1 a = (Some err, c2, w2)"
  then have run: "connect_each c w (map snd pre) = (rs, c1, w1)" and ok: "\<forall>r \<in> set rs. r = None"
    and bad: "connectWithTransport c1 w1 a = (Some err, c2, w2)" by blast+
  have pre: "ConnectFromConfigs c w pre = (None, c1, w1)" using run ok by (rule ConnectFromConfigs_all)
  have "c2 = c1" using bad by (rule connect_error_keeps_registry)
  with bad have "ConnectFromConfig c1 w1 config a = (Some err, c1, w2)"
    by (simp add: ConnectFromConfig_def ConnectWithCommand_def)
  with pre show "ConnectFromConfigs c w (pre @ (config, a) # rest) =
      (Some (ConnectServerFailed (Config_Name config) err), c1, w2)"
    by (rule ConnectFromConfigs_abort)
next
  assume "connect_each c w (map snd configs) = (rs', c', w') \<and> (\<forall>r \<in> set rs'. r = None)"
  then have run: "connect_each c w (map snd configs) = (rs', c', w')"
    and ok: "\<forall>r \<in> set rs'. r = None" by blast+
  show "ConnectFromConfigs c w configs = (None, c', w')" using run ok by (rule ConnectFromConfigs_all)
  show "\<forall>(config, a) \<in> set configs. \<exists>i ss. resulting_id a = Some i \<and> servers c' i = Some ss"
  proof (clarify)
    fix config a assume "(config, a) \<in> set configs"
    then have "a \<in> set (map snd configs)" by force
    with run ok show "\<exists>i ss. resulting_id a = Some i \<and> servers c' i = Some ss"
      by (rule connect_each_registered)
  qed
qed


theorem first_failure_aborts_witness:
  "connect_each (NewClient ''ttobot'' ''1.0.0'') world_0 [attempt_of session_A] = ([None], registry_A, world_A) \<and>
   connectWithTransport registry_A world_A failed_attempt =
     (Some (ConnectFailed (External ''exit status 1'')), registry_A, world_A) \<and>
   ConnectFromConfigs (NewClient ''ttobot'' ''1.0.0'') world_0
     ([(example_config ''a'', attempt_of session_A)] @ (example_config ''bad'', failed_attempt) #
      [(example_config ''b'', attempt_of session_B)]) =
     (Some (ConnectServerFailed ''bad'' (ConnectFailed (External ''exit status 1''))), registry_A, world_A) \<and>
   connect_each (NewClient ''ttobot'' ''1.0.0'') world_0 [attempt_of session_A, attempt_of session_B] =
     ([None, None], registry_AB, world_AB) \<and>
   ConnectFromConfigs (NewClient ''ttobot'' ''1.0.0'') world_0
     [(example_config ''a'', attempt_of session_A), (example_config ''b'', attempt_of session_B)] =
     (None, registry_AB, world_AB) \<and>
   (\<exists>ss. resulting_id (attempt_of session_B) = Some ''B'' \<and> servers registry_AB ''B'' = Some ss)"
proof -
  have one: "connect_each (NewClient ''ttobot'' ''1.0.0'') world_0 (map snd [(example_config ''a'', attempt_of session_A)]) =
      ([None], registry_A, world_A)"
    by (simp add: connect_A)
  have two: "connect_each (NewClient ''ttobot'' ''1.0.0'') world_0
      (map snd [(example_config ''a'', attempt_of session_A), (example_config ''b'', attempt_of session_B)]) =
      ([None, None], registry_AB, world_AB)"
    by (simp add: connect_A connect_B)
  have ok1: "\<forall>r \<in> set [None :: error option]. r = None" by simp
  have ok2: "\<forall>r \<in> set [None :: error option, None]. r = None" by simp
  note inst = first_failure_aborts [of "NewClient ''ttobot'' ''1.0.0''" world_0
      "[(example_config ''a'', attempt_of session_A)]" "[None]" registry_A world_A failed_attempt
      "ConnectFailed (External ''exit status 1'')" registry_A world_A "example_config ''bad''"
      "[(example_config ''b'', attempt_of session_B)]"
      "[(example_config ''a'', attempt_of session_A), (example_config ''b'', attempt_of session_B)]"
      "[None, None]" registry_AB world_AB]
  have abort: "ConnectFromConfigs (NewClient ''ttobot'' ''1.0.0'') world_0
     ([(example_config ''a'', attempt_of session_A)] @ (example_config ''bad'', failed_attempt) #
      [(example_config ''b'', attempt_of session_B)]) =
     (Some (ConnectServerFailed (Config_Name (example_config ''bad'')) (ConnectFailed (External ''exit status 1''))),
      registry_A, world_A)"
    using inst one ok1 connect_failed_attempt [of registry_A world_A] by blast
  have all: "ConnectFromConfigs (NewClient ''ttobot'' ''1.0.0'') world_0
       [(example_config ''a'', attempt_of session_A), (example_config ''b'', attempt_of session_B)] =
       (None, registry_AB, world_AB) \<and>
     (\<forall>(config, a) \<in> set [(example_config ''a'', attempt_of session_A), (example_config ''b'', attempt_of session_B)].
        \<exists>i ss. resulting_id a = Some i \<and> servers registry_AB i = Some ss)"
    using inst two ok2 by blast
  then have regB: "\<exists>ss. resulting_id (attempt_of session_B) = Some ''B'' \<and> servers registry_AB ''B'' = Some ss"
    by simp
  have name: "Config_Name (example_config ''bad'') = ''bad''" by (simp add: example_config_def)
  show ?thesis
    using one two abort all regB connect_failed_attempt [of registry_A world_A] unfolding name by simp
qed


subsection \<open>Generated identifiers\<close>


lemma length_EncodeToString: "length (EncodeToString bs) = 2 * length bs"
  by (induction bs) auto

lemma high_digit_index: "unat (drop_bit 4 (b :: 8 word)) < 16"
proof -
  have "unat b < 256" using unsigned_less [of b] by simp
  then have "unat b div 16 < 16" by arith
  moreover have "unat (drop_bit 4 b) = unat b div 16"
    by (simp add: drop_bit_eq_div unat_div)
  ultimately show ?thesis by simp
qed

lemma low_digit_index: "unat ((b :: 8 word) AND 0x0f) < 16"
proof -
  have "b AND 0x0f \<le> 0x0f" by (rule word_and_le1)
  then have "unat (b AND 0x0f) \<le> unat (0x0f :: 8 word)" by (simp add: word_le_nat_alt)
  then show ?thesis by simp
qed

lemma hextable_nth: "n < 16 \<Longrightarrow> hextable ! n \<in> set hextable"
proof -
  assume "n < 16"
  moreover have "length hextable = 16" by (simp add: hextable_def)
  ultimately have "n < length hextable" by simp
  then show ?thesis by (rule nth_mem)
qed

lemma set_EncodeToString: "set (EncodeToString bs) \<subseteq> set hextable"
proof (induction bs)
  case Nil
  then show ?case by simp
next
  case (Cons b bs)
  have "hextable ! unat (drop_bit 4 b) \<in> set hextable"
    using high_digit_index by (rule hextable_nth)
  moreover have "hextable ! unat (b AND 0x0f) \<in> set hextable"
    using low_digit_index by (rule hextable_nth)
  ultimately show ?case using Cons.IH by simp
qed

lemma length_generateUUID: "length (generateUUID rnd) = 32"
  by (simp add: generateUUID_def length_EncodeToString)

lemma set_generateUUID: "set (generateUUID rnd) \<subseteq> set hextable"
  by (simp add: generateUUID_def set_EncodeToString)

lemma uuid_prefix:
  "length (take 8 (generateUUID rnd)) = 8 \<and> set (take 8 (generateUUID rnd)) \<subseteq> set hextable"
proof
  show "length (take 8 (generateUUID rnd)) = 8" by (simp add: length_generateUUID)
  have "set (take 8 (generateUUID rnd)) \<subseteq> set (generateUUID rnd)" by (rule set_take_subset)
  then show "set (take 8 (generateUUID rnd)) \<subseteq> set hextable" using set_generateUUID by blast
qed



lemma decimal_nth: "n < 10 \<Longrightarrow> decimal ! n \<in> set decimal"
proof -
  assume "n < 10"
  moreover have "length decimal = 10" by (simp add: decimal_def)
  ultimately have "n < length decimal" by simp
  then show ?thesis by (rule nth_mem)
qed

lemma digits_decimal: "set (digits n) \<subseteq> set decimal"
proof (induction n rule: digits.induct)
  case (1 n)
  have last: "decimal ! (n mod 10) \<in> set decimal"
    by (rule decimal_nth) simp
  show ?case
  proof (cases "n < 10")
    case True
    then have "decimal ! n \<in> set decimal" by (rule decimal_nth)
    with True show ?thesis by (subst digits.simps) simp
  next
    case False
    then have "set (digits (n div 10)) \<subseteq> set decimal" by (rule "1.IH")
    with False last show ?thesis by (subst digits.simps) simp
  qed
qed

lemma appendInt_chars: "set (appendInt x width) \<subseteq> insert (CHR ''-'') (set decimal)"
proof -
  have d: "set (digits (nat \<bar>x\<bar>)) \<subseteq> set decimal" by (rule digits_decimal)
  have z: "CHR ''0'' \<in> set decimal" by (simp add: decimal_def)
  have r: "set (replicate k (CHR ''0'')) \<subseteq> set decimal" for k
    using z by (induction k) simp_all
  show ?thesis
    unfolding appendInt_def Let_def using d r by auto
qed

lemma Format_chars: "set (Format_20060102_150405 t) \<subseteq> insert (CHR ''-'') (set decimal)"
proof -
  obtain y m d where "civil_from_days ((unix_sec t + zone_offset t) div 86400) = (y, m, d)"
    by (cases "civil_from_days ((unix_sec t + zone_offset t) div 86400)")
  then show ?thesis
    using appendInt_chars by (simp add: Format_20060102_150405_def Let_def)
qed

lemma generated_id_no_colon: "CHR '':'' \<notin> set (generateServerID now rnd [])"
proof -
  have "set (take 8 (generateUUID rnd)) \<subseteq> set hextable"
    using set_generateUUID [of rnd] set_take_subset [of 8 "generateUUID rnd"] by blast
  then have "set (generateServerID now rnd []) \<subseteq>
      set ''mcp-server-'' \<union> insert (CHR ''-'') (set decimal) \<union> set hextable"
    using Format_chars [of now] by (auto simp: generateServerID_def Let_def)
  moreover have "CHR '':'' \<notin> set ''mcp-server-'' \<union> insert (CHR ''-'') (set decimal) \<union> set hextable"
    by (simp add: hextable_def decimal_def)
  ultimately show ?thesis by blast
qed

lemma generated_id_example:
  "generateServerID one_hour_east [0xde, 0xad, 0xbe, 0xef] [] = ''mcp-server-19700101-010000-deadbeef''"
  by code_simp

lemma utc_timestamp_example: "Format_20060102_150405 (UTC one_hour_east) = ''19700101-000000''"
  by code_simp

lemma uuid_prefix_example: "take 8 (generateUUID [0xde, 0xad, 0xbe, 0xef]) = ''deadbeef''"
  by code_simp

text \<open>
  Claim C8 says that a generated identifier carries a UTC timestamp. The source
  formats \<open>time.Now()\<close>, which is the local time: at the Unix epoch in a zone one
  hour east of UTC the identifier is \<open>mcp-server-19700101-010000-deadbeef\<close>, and
  the identifier with the UTC timestamp would be \<open>mcp-server-19700101-000000-deadbeef\<close>.
\<close>

theorem generated_id_not_UTC:
  "resulting_id attempt_unnamed = Some ''mcp-server-19700101-010000-deadbeef'' \<and>
   resulting_id attempt_unnamed \<noteq>
     Some (''mcp-server-'' @ Format_20060102_150405 (UTC (clock attempt_unnamed)) @ ''-'' @
           take 8 (generateUUID (entropy attempt_unnamed))) \<and>
   ''mcp-server-'' @ Format_20060102_150405 (UTC (clock attempt_unnamed)) @ ''-'' @
     take 8 (generateUUID (entropy attempt_unnamed)) = ''mcp-server-19700101-000000-deadbeef'' \<and>
   fst (connectWithTransport (NewClient ''ttobot'' ''1.0.0'') world_0 attempt_unnamed) = None \<and>
   dom (servers (fst (snd (connectWithTransport (NewClient ''ttobot'' ''1.0.0'') world_0 attempt_unnamed)))) =
     {''mcp-server-19700101-010000-deadbeef''}"
proof -
  have i: "resulting_id attempt_unnamed = Some ''mcp-server-19700101-010000-deadbeef''"
    by (simp add: resulting_id_def attempt_unnamed_def session_unnamed_def generated_id_example)
  have hs: "handshake attempt_unnamed = Inr session_unnamed" by (simp add: attempt_unnamed_def)
  have free: "servers (NewClient ''ttobot'' ''1.0.0'') ''mcp-server-19700101-010000-deadbeef'' = None"
    by (simp add: NewClient_def)
  note run = connect_registered [OF hs i free, of world_0]
  have utc: "''mcp-server-'' @ Format_20060102_150405 (UTC (clock attempt_unnamed)) @ ''-'' @
     take 8 (generateUUID (entropy attempt_unnamed)) = ''mcp-server-19700101-000000-deadbeef''"
    by (simp add: attempt_unnamed_def utc_timestamp_example uuid_prefix_example)
  have dom: "dom (servers (fst (snd (connectWithTransport (NewClient ''ttobot'' ''1.0.0'') world_0 attempt_unnamed)))) =
     {''mcp-server-19700101-010000-deadbeef''}"
    unfolding run by (simp add: NewClient_def)
  show ?thesis using i utc dom by (simp add: run)
qed

text \<open>
  Claim C8, amended. For every connection attempt whose handshake succeeds, the
  identifier of the connection is the one the provider furnishes when that is not
  empty, and otherwise \<open>mcp-server-\<close>, the timestamp \<open>YYYYMMDD-HHMMSS\<close> of the local
  wall clock, a hyphen and the first eight hexadecimal digits of sixteen random
  bytes. The session is registered under this identifier when it is free, and
  rejected with this identifier in the error when it is taken.
\<close>

theorem server_id_choice:
  "handshake a = Inr s \<longrightarrow>
     (\<exists>i. (if ss_ID s \<noteq> [] then i = ss_ID s
           else i = ''mcp-server-'' @ Format_20060102_150405 (clock a) @ ''-'' @
                    take 8 (generateUUID (entropy a))) \<and>
          length (take 8 (generateUUID (entropy a))) = 8 \<and>
          set (take 8 (generateUUID (entropy a))) \<subseteq> set ''0123456789abcdef'' \<and>
          (case servers c i of
             None \<Rightarrow>
               (\<exists>c'. connectWithTransport c w a = (None, c', allocate w s) \<and>
                     servers c' i = Some (next_handle w) \<and> serverIDs c' (next_handle w) = Some i)
           | Some old \<Rightarrow>
               connectWithTransport c w a =
                 (Some (ServerExists i), c, Close (allocate w s) (next_handle w))))"
proof
  assume hs: "handshake a = Inr s"
  define i where "i = generateServerID (clock a) (entropy a) (ss_ID s)"
  have rid: "resulting_id a = Some i" using hs by (simp add: resulting_id_def i_def)
  have form: "if ss_ID s \<noteq> [] then i = ss_ID s
     else i = ''mcp-server-'' @ Format_20060102_150405 (clock a) @ ''-'' @ take 8 (generateUUID (entropy a))"
    by (simp add: i_def generateServerID_def)
  have hex: "length (take 8 (generateUUID (entropy a))) = 8 \<and>
      set (take 8 (generateUUID (entropy a))) \<subseteq> set ''0123456789abcdef''"
    using uuid_prefix [of "entropy a"] by (simp only: hextable_def)
  have reg: "case servers c i of
       None \<Rightarrow>
         (\<exists>c'. connectWithTransport c w a = (None, c', allocate w s) \<and>
               servers c' i = Some (next_handle w) \<and> serverIDs c' (next_handle w) = Some i)
     | Some old \<Rightarrow>
         connectWithTransport c w a = (Some (ServerExists i), c, Close (allocate w s) (next_handle w))"
  proof (cases "servers c i")
    case None
    with hs rid show ?thesis by (simp add: connect_registered)
  next
    case (Some old)
    with hs rid show ?thesis by (simp add: connect_duplicate)
  qed
  from form hex reg show "\<exists>i. (if ss_ID s \<noteq> [] then i = ss_ID s
           else i = ''mcp-server-'' @ Format_20060102_150405 (clock a) @ ''-'' @
                    take 8 (generateUUID (entropy a))) \<and>
          length (take 8 (generateUUID (entropy a))) = 8 \<and>
          set (take 8 (generateUUID (entropy a))) \<subseteq> set ''0123456789abcdef'' \<and>
          (case servers c i of
             None \<Rightarrow>
               (\<exists>c'. connectWithTransport c w a = (None, c', allocate w s) \<and>
                     servers c' i = Some (next_handle w) \<and> serverIDs c' (next_handle w) = Some i)
           | Some old \<Rightarrow>
               connectWithTransport c w a =
                 (Some (ServerExists i), c, Close (allocate w s) (next_handle w)))"
    by blast
qed

theorem server_id_choice_witness:
  "handshake attempt_unnamed = Inr session_unnamed \<and>
   (\<exists>i. (if ss_ID session_unnamed \<noteq> [] then i = ss_ID session_unnamed
         else i = ''mcp-server-'' @ Format_20060102_150405 (clock attempt_unnamed) @ ''-'' @
                  take 8 (generateUUID (entropy attempt_unnamed))) \<and>
        length (take 8 (generateUUID (entropy attempt_unnamed))) = 8 \<and>
        set (take 8 (generateUUID (entropy attempt_unnamed))) \<subseteq> set ''0123456789abcdef'' \<and>
        (case servers registry_AB i of
           None \<Rightarrow>
             (\<exists>c'. connectWithTransport registry_AB world_AB attempt_unnamed =
                     (None, c', allocate world_AB session_unnamed) \<and>
                   servers c' i = Some (next_handle world_AB) \<and>
                   serverIDs c' (next_handle world_AB) = Some i)
         | Some old \<Rightarrow>
             connectWithTransport registry_AB world_AB attempt_unnamed =
               (Some (ServerExists i), registry_AB,
                Close (allocate world_AB session_unnamed) (next_handle world_AB))))"
proof -
  have hs: "handshake attempt_unnamed = Inr session_unnamed" by (simp add: attempt_unnamed_def)
  then show ?thesis
    using server_id_choice [of attempt_unnamed session_unnamed registry_AB world_AB] by blast
qed


subsection \<open>Listing tools\<close>


lemma listed_as_literal:
  "listed_as serverID mcpTool (commonTool_literal serverID (serverID @ '':'' @ mcp_Name mcpTool) mcpTool)"
  by (simp add: listed_as_def commonTool_literal_def)

lemma listed_as_Parameters:
  "listed_as serverID mcpTool t \<Longrightarrow>
   listed_as serverID mcpTool (t\<lparr>Tool_Function := (Tool_Function t)\<lparr>fn_Parameters := p\<rparr>\<rparr>)"
  by (simp add: listed_as_def)

lemma Tools_of_server_listed:
  "Tools_of_server js c server ys result = Inr result' \<Longrightarrow>
   \<exists>new. result' = result @ new \<and>
         list_all2 (listed_as (serverID_of c server)) (List.map_filter fst ys) new"
proof (induction ys arbitrary: result)
  case Nil
  then show ?case by (simp add: List.map_filter_simps)
next
  case (Cons y ys)
  obtain mcpTool err where y: "y = (mcpTool, err)" by (cases y)
  from Cons.prems y have err: "err = None" by (auto split: option.splits)
  show ?case
  proof (cases mcpTool)
    case None
    with Cons.prems y err have "Tools_of_server js c server ys result = Inr result'" by simp
    then have "\<exists>new. result' = result @ new \<and>
        list_all2 (listed_as (serverID_of c server)) (List.map_filter fst ys) new"
      by (rule Cons.IH)
    with None y show ?thesis by (simp add: List.map_filter_simps)
  next
    case (Some t)
    define lit where "lit = commonTool_literal (serverID_of c server)
        (serverID_of c server @ '':'' @ mcp_Name t) t"
    have lit: "listed_as (serverID_of c server) t lit"
      unfolding lit_def by (rule listed_as_literal)
    have "\<exists>t'. listed_as (serverID_of c server) t t' \<and>
        Tools_of_server js c server ys (result @ [t']) = Inr result'"
    proof (cases "mcp_InputSchema t")
      case None
      with Cons.prems y err Some have "Tools_of_server js c server ys (result @ [lit]) = Inr result'"
        by (simp add: lit_def Let_def)
      with lit show ?thesis by blast
    next
      case schema: (Some schema)
      from Cons.prems y err Some schema
      obtain p where conv: "ConvertViaJSON js schema (fn_Parameters (Tool_Function lit)) = Inr p"
        by (cases "ConvertViaJSON js schema (fn_Parameters (Tool_Function lit))")
          (simp_all add: lit_def Let_def)
      with Cons.prems y err Some schema
      have "Tools_of_server js c server ys
          (result @ [lit\<lparr>Tool_Function := (Tool_Function lit)\<lparr>fn_Parameters := p\<rparr>\<rparr>]) = Inr result'"
        by (simp add: lit_def Let_def)
      moreover have "listed_as (serverID_of c server) t
          (lit\<lparr>Tool_Function := (Tool_Function lit)\<lparr>fn_Parameters := p\<rparr>\<rparr>)"
        using lit by (rule listed_as_Parameters)
      ultimately show ?thesis by blast
    qed
    then obtain t' where t': "listed_as (serverID_of c server) t t'"
      and rest: "Tools_of_server js c server ys (result @ [t']) = Inr result'" by blast
    from rest obtain new where new: "result' = (result @ [t']) @ new"
      and all: "list_all2 (listed_as (serverID_of c server)) (List.map_filter fst ys) new"
      using Cons.IH by blast
    have "result' = result @ (t' # new)" using new by simp
    moreover have "list_all2 (listed_as (serverID_of c server)) (List.map_filter fst (y # ys)) (t' # new)"
      using t' all y Some by (simp add: List.map_filter_simps)
    ultimately show ?thesis by blast
  qed
qed

lemma Tools_of_servers_listed:
  "Tools_of_servers js c w keys result = Inr result' \<Longrightarrow>
   \<exists>new. result' = result @ new \<and>
         list_all2 (\<lambda>(server, mcpTool) t. listed_as (serverID_of c server) mcpTool t)
           (native_tools c w keys) new"
proof (induction keys arbitrary: result)
  case Nil
  then show ?case by simp
next
  case (Cons k keys)
  show ?case
  proof (cases "servers c k")
    case None
    with Cons.prems have "Tools_of_servers js c w keys result = Inr result'" by simp
    then have "\<exists>new. result' = result @ new \<and>
         list_all2 (\<lambda>(server, mcpTool) t. listed_as (serverID_of c server) mcpTool t)
           (native_tools c w keys) new" by (rule Cons.IH)
    with None show ?thesis by simp
  next
    case (Some server)
    with Cons.prems obtain mid where
      mid: "Tools_of_server js c server (ss_Tools (sessions w server)) result = Inr mid"
      and rest: "Tools_of_servers js c w keys mid = Inr result'"
      by (auto split: sum.splits)
    from mid obtain new1 where new1: "mid = result @ new1"
      and all1: "list_all2 (listed_as (serverID_of c server))
          (List.map_filter fst (ss_Tools (sessions w server))) new1"
      using Tools_of_server_listed by blast
    from rest obtain new2 where new2: "result' = mid @ new2"
      and all2: "list_all2 (\<lambda>(server, mcpTool) t. listed_as (serverID_of c server) mcpTool t)
           (native_tools c w keys) new2"
      using Cons.IH by blast
    have "list_all2 (\<lambda>(server, mcpTool) t. listed_as (serverID_of c server) mcpTool t)
        (map (Pair server) (List.map_filter fst (ss_Tools (sessions w server)))) new1"
      using all1 by (simp add: list_all2_map1)
    then have "list_all2 (\<lambda>(server, mcpTool) t. listed_as (serverID_of c server) mcpTool t)
        (native_tools c w (k # keys)) (new1 @ new2)"
      using all2 Some by (simp add: list_all2_appendI)
    moreover have "result' = result @ (new1 @ new2)" using new1 new2 by simp
    ultimately show ?thesis by blast
  qed
qed

lemma Tools_listed:
  assumes "Tools js c w keys = Inr ts"
  shows "list_all2 (\<lambda>(server, mcpTool) t. listed_as (serverID_of c server) mcpTool t)
           (native_tools c w keys) ts"
proof -
  from assms have "Tools_of_servers js c w keys [] = Inr ts"
    by (auto simp: Tools_def split: if_splits sum.splits)
  then show ?thesis using Tools_of_servers_listed by fastforce
qed



lemma native_tools_owner:
  "(server, mcpTool) \<in> set (native_tools c w keys) \<Longrightarrow>
   \<exists>k \<in> set keys. servers c k = Some server \<and>
      Some mcpTool \<in> fst ` set (ss_Tools (sessions w server))"
proof (induction keys)
  case Nil
  then show ?case by simp
next
  case (Cons k keys)
  show ?case
  proof (cases "servers c k")
    case None
    with Cons show ?thesis by auto
  next
    case (Some h)
    from Cons.prems Some
    consider "server = h" "mcpTool \<in> set (List.map_filter fst (ss_Tools (sessions w h)))"
      | "(server, mcpTool) \<in> set (native_tools c w keys)"
      by auto
    then show ?thesis
    proof cases
      case 1
      then have "Some mcpTool \<in> fst ` set (ss_Tools (sessions w h))"
        by (force simp: List.map_filter_def)
      with 1 Some show ?thesis by auto
    next
      case 2
      with Cons.IH show ?thesis by auto
    qed
  qed
qed

lemma serverID_of_registered:
  "inverse_maps c \<Longrightarrow> servers c k = Some server \<Longrightarrow> serverID_of c server = k"
  by (simp add: serverID_of_def inverse_maps_fwd)

lemma spec_split_display:
  assumes "CHR '':'' \<notin> set k"
  shows "spec_split (k @ '':'' @ n) = (k, n)"
proof -
  have "\<And>x. x \<in> set k \<Longrightarrow> x \<noteq> CHR '':''" using assms by blast
  then have "takeWhile (\<lambda>x. x \<noteq> CHR '':'') (k @ '':'' @ n) = k"
    and "dropWhile (\<lambda>x. x \<noteq> CHR '':'') (k @ '':'' @ n) = '':'' @ n"
    by (simp_all add: takeWhile_append2 dropWhile_append2)
  then show ?thesis by (simp add: spec_split_def)
qed

lemma listed_as_distinct:
  assumes "listed_as s1 m1 t1" "listed_as s2 m2 t2" "mcp_Name m1 = mcp_Name m2" "s1 \<noteq> s2"
  shows "Tool_Name t1 \<noteq> Tool_Name t2"
proof
  assume "Tool_Name t1 = Tool_Name t2"
  with assms(1,2,3) have "s1 @ ('':'' @ mcp_Name m2) = s2 @ ('':'' @ mcp_Name m2)"
    by (simp add: listed_as_def)
  then have "s1 = s2" by (simp only: append_same_eq)
  with assms(4) show False by simp
qed

lemma Execute_invokes:
  "servers c (exec_serverID e) = Some server \<Longrightarrow>
   snd (Execute e c w arguments) =
     [(server, \<lparr>params_Name = exec_toolName e, params_Arguments = arguments\<rparr>)]"
  by (simp add: Execute_def Let_def split: sum.splits option.splits)

lemma Execute_missing:
  "servers c (exec_serverID e) = None \<Longrightarrow>
   Execute e c w arguments = (Inl (ServerNotFound (exec_serverID e)), [])"
  by (simp add: Execute_def)

lemma list_all2_right_member:
  "list_all2 P xs ys \<Longrightarrow> y \<in> set ys \<Longrightarrow> \<exists>x \<in> set xs. P x y"
  by (induction rule: list_all2_induct) auto

lemma listed_tool_owner:
  assumes inv: "inverse_maps c" and run: "Tools js c w keys = Inr ts" and t: "t \<in> set ts"
  shows "\<exists>k server mcpTool. k \<in> set keys \<and> servers c k = Some server \<and>
      Some mcpTool \<in> fst ` set (ss_Tools (sessions w server)) \<and> listed_as k mcpTool t"
proof -
  from run have all: "list_all2 (\<lambda>(server, mcpTool) t. listed_as (serverID_of c server) mcpTool t)
      (native_tools c w keys) ts" by (rule Tools_listed)
  from list_all2_right_member [OF all t]
  obtain x where x: "x \<in> set (native_tools c w keys)"
    and l: "(\<lambda>(server, mcpTool) t. listed_as (serverID_of c server) mcpTool t) x t"
    by blast
  obtain server mcpTool where xp: "x = (server, mcpTool)" by (cases x)
  from x xp have "(server, mcpTool) \<in> set (native_tools c w keys)" by simp
  from native_tools_owner [OF this]
  obtain k where k: "k \<in> set keys" "servers c k = Some server"
    "Some mcpTool \<in> fst ` set (ss_Tools (sessions w server))"
    by blast
  from inv k(2) have "serverID_of c server = k" by (rule serverID_of_registered)
  with l xp have "listed_as k mcpTool t" by simp
  with k show ?thesis by blast
qed



lemma list_all2_map_eq:
  "list_all2 P xs ys \<Longrightarrow> (\<And>x y. P x y \<Longrightarrow> f y = g x) \<Longrightarrow> map f ys = map g xs"
  by (induction rule: list_all2_induct) auto

lemma Tools_names:
  assumes "Tools js c w keys = Inr ts"
  shows "map Tool_Name ts =
     map (\<lambda>(server, mcpTool). serverID_of c server @ '':'' @ mcp_Name mcpTool) (native_tools c w keys)"
proof -
  from assms have "list_all2 (\<lambda>(server, mcpTool) t. listed_as (serverID_of c server) mcpTool t)
      (native_tools c w keys) ts" by (rule Tools_listed)
  then show ?thesis
  proof (rule list_all2_map_eq)
    fix x :: "handle \<times> mcp_Tool" and t
    assume "(case x of (server, mcpTool) \<Rightarrow> listed_as (serverID_of c server) mcpTool) t"
    then show "Tool_Name t = (case x of (server, mcpTool) \<Rightarrow> serverID_of c server @ '':'' @ mcp_Name mcpTool)"
      by (cases x) (simp add: listed_as_def)
  qed
qed

lemma Tool_Execute_listed:
  assumes "listed_as k mcpTool t" "servers c k = Some server"
  shows "snd (Tool_Execute t c w arguments) =
     [(server, \<lparr>params_Name = mcp_Name mcpTool, params_Arguments = arguments\<rparr>)]"
proof -
  from assms(1) have e: "Tool_Executor t =
      Some \<lparr>exec_serverID = k, exec_toolName = mcp_Name mcpTool, exec_originalTool = mcpTool\<rparr>"
    by (simp add: listed_as_def)
  have "snd (Execute \<lparr>exec_serverID = k, exec_toolName = mcp_Name mcpTool, exec_originalTool = mcpTool\<rparr>
      c w arguments) = [(server, \<lparr>params_Name = mcp_Name mcpTool, params_Arguments = arguments\<rparr>)]"
    using Execute_invokes [of c "\<lparr>exec_serverID = k, exec_toolName = mcp_Name mcpTool, exec_originalTool = mcpTool\<rparr>" server w arguments]
      assms(2) by simp
  with e show ?thesis by (simp add: Tool_Execute_def)
qed

lemma native_tools_member:
  "k \<in> set keys \<Longrightarrow> servers c k = Some server \<Longrightarrow>
   Some mcpTool \<in> fst ` set (ss_Tools (sessions w server)) \<Longrightarrow>
   (server, mcpTool) \<in> set (native_tools c w keys)"
proof (induction keys)
  case Nil
  then show ?case by simp
next
  case (Cons k' keys)
  show ?case
  proof (cases "k = k'")
    case True
    from Cons.prems(3) have "mcpTool \<in> set (List.map_filter fst (ss_Tools (sessions w server)))"
      by (force simp: List.map_filter_def)
    with True Cons.prems(2) show ?thesis by simp
  next
    case False
    with Cons have "(server, mcpTool) \<in> set (native_tools c w keys)" by simp
    then show ?thesis by (cases "servers c k'") simp_all
  qed
qed

lemma Tools_name_set:
  assumes inv: "inverse_maps c" and order: "range_order c keys" and run: "Tools js c w keys = Inr ts"
  shows "set (map Tool_Name ts) =
     {n. \<exists>k server mcpTool. servers c k = Some server \<and>
           Some mcpTool \<in> fst ` set (ss_Tools (sessions w server)) \<and>
           n = k @ '':'' @ mcp_Name mcpTool}"
proof (intro set_eqI iffI)
  fix n assume "n \<in> set (map Tool_Name ts)"
  then obtain t where t: "t \<in> set ts" and n: "n = Tool_Name t" by auto
  from listed_tool_owner [OF inv run t] obtain k server mcpTool
    where "servers c k = Some server" "Some mcpTool \<in> fst ` set (ss_Tools (sessions w server))"
      "listed_as k mcpTool t" by blast
  then show "n \<in> {n. \<exists>k server mcpTool. servers c k = Some server \<and>
           Some mcpTool \<in> fst ` set (ss_Tools (sessions w server)) \<and>
           n = k @ '':'' @ mcp_Name mcpTool}"
    unfolding n by (auto simp: listed_as_def)
next
  fix n assume "n \<in> {n. \<exists>k server mcpTool. servers c k = Some server \<and>
           Some mcpTool \<in> fst ` set (ss_Tools (sessions w server)) \<and>
           n = k @ '':'' @ mcp_Name mcpTool}"
  then obtain k server mcpTool where k: "servers c k = Some server"
    and y: "Some mcpTool \<in> fst ` set (ss_Tools (sessions w server))"
    and n: "n = k @ '':'' @ mcp_Name mcpTool" by blast
  from k order have "k \<in> set keys" unfolding range_order_def by blast
  then have "(server, mcpTool) \<in> set (native_tools c w keys)" using k y by (rule native_tools_member)
  moreover have "serverID_of c server = k" using inv k by (rule serverID_of_registered)
  ultimately have "n \<in> set (map (\<lambda>(server, mcpTool). serverID_of c server @ '':'' @ mcp_Name mcpTool)
      (native_tools c w keys))"
    unfolding n by force
  then show "n \<in> set (map Tool_Name ts)" by (simp only: Tools_names [OF run])
qed

lemma reachable_by_command_reachable: "reachable_by_command c w \<Longrightarrow> reachable c w"
  by (induction rule: reachable_by_command.induct) (auto intro: reachable.intros)

lemma colon_free_NewClient: "colon_free (NewClient name version)"
  by (simp add: colon_free_def NewClient_def)

lemma colon_free_connect:
  assumes free: "colon_free c" and a: "CommandTransport_attempt a"
    and run: "connectWithTransport c w a = (r, c', w')"
  shows "colon_free c'"
proof (cases rule: connect_cases [of a c w])
  case (failed err)
  with run have "c' = c" by simp
  with free show ?thesis by simp
next
  case (duplicate s i other)
  with run have "c' = c" by simp
  with free show ?thesis by simp
next
  case (registered s i)
  from a registered(1) have "ss_ID s = []" by (simp add: CommandTransport_attempt_def)
  with registered(1,2) have "i = generateServerID (clock a) (entropy a) []"
    by (simp add: resulting_id_def)
  then have i: "CHR '':'' \<notin> set i" by (simp add: generated_id_no_colon)
  from run registered(4) have "servers c' = (servers c)(i \<mapsto> next_handle w)" by auto
  with free i show ?thesis unfolding colon_free_def by (auto split: if_splits)
qed

lemma reachable_by_command_colon_free: "reachable_by_command c w \<Longrightarrow> colon_free c"
  by (induction rule: reachable_by_command.induct) (auto intro: colon_free_NewClient colon_free_connect)

lemma colon_freeD: "colon_free c \<Longrightarrow> servers c k = Some server \<Longrightarrow> CHR '':'' \<notin> set k"
  unfolding colon_free_def by blast

lemma Tools_AB:
  "Tools example_json registry_AB world_AB [''A'', ''B''] =
     Inr [example_listed ''A'' ''ping'', example_listed ''B'' ''ping'', example_listed ''B'' ''status'']"
  by (simp add: Tools_def registry_AB_def world_AB_def session_A_def session_B_def
      example_tool_def example_listed_def serverID_of_def Let_def)

lemma Tools_BA:
  "Tools example_json registry_AB world_AB [''B'', ''A''] =
     Inr [example_listed ''B'' ''ping'', example_listed ''B'' ''status'', example_listed ''A'' ''ping'']"
  by (simp add: Tools_def registry_AB_def world_AB_def session_A_def session_B_def
      example_tool_def example_listed_def serverID_of_def Let_def)

lemma Tool_Name_example_listed [simp]: "Tool_Name (example_listed k n) = k @ '':'' @ n"
  by (simp add: example_listed_def commonTool_literal_def)

lemma Execute_B_ping:
  "Tool_Execute (example_listed ''B'' ''ping'') registry_AB world_AB [] =
     (Inr ''B pong'', [(1, \<lparr>params_Name = ''ping'', params_Arguments = []\<rparr>)])"
  by (simp add: Tool_Execute_def Execute_def example_listed_def commonTool_literal_def
      example_tool_def registry_AB_def world_AB_def session_B_def example_CallTool_def)

lemma inverse_maps_AB: "inverse_maps registry_AB"
  using registry_inv_AB unfolding registry_inv_def by blast

lemma generated_id_A: "generateServerID epoch [] [] = id_A"
  unfolding id_A_def by code_simp

lemma generated_id_B: "generateServerID one_hour_east [0xde, 0xad, 0xbe, 0xef] [] = id_B"
  unfolding id_B_def by code_simp

lemma id_A_neq_B [simp]: "id_A \<noteq> id_B" "id_B \<noteq> id_A"
  by (simp_all add: id_A_def id_B_def)

lemma connect_stdio_A:
  "connectWithTransport (NewClient ''ttobot'' ''1.0.0'') world_0 attempt_stdio_A =
     (None, \<lparr>servers = [id_A \<mapsto> 0], serverIDs = [0 \<mapsto> id_A]\<rparr>,
      \<lparr>sessions = (\<lambda>h. session_A)(0 := stdio_A), next_handle = Suc 0\<rparr>)"
  using connect_registered [of attempt_stdio_A stdio_A id_A "NewClient ''ttobot'' ''1.0.0''" world_0]
  by (simp add: allocate_def NewClient_def world_0_def attempt_stdio_A_def resulting_id_def
      stdio_A_def generated_id_A)

lemma connect_stdio_B:
  "connectWithTransport \<lparr>servers = [id_A \<mapsto> 0], serverIDs = [0 \<mapsto> id_A]\<rparr>
     \<lparr>sessions = (\<lambda>h. session_A)(0 := stdio_A), next_handle = Suc 0\<rparr> attempt_stdio_B =
     (None, registry_stdio, world_stdio)"
  using connect_registered [of attempt_stdio_B stdio_B id_B
      "\<lparr>servers = [id_A \<mapsto> 0], serverIDs = [0 \<mapsto> id_A]\<rparr>"
      "\<lparr>sessions = (\<lambda>h. session_A)(0 := stdio_A), next_handle = Suc 0\<rparr>"]
  by (simp add: allocate_def registry_stdio_def world_stdio_def attempt_stdio_B_def resulting_id_def
      stdio_B_def generated_id_B)

lemma CommandTransport_stdio:
  "CommandTransport_attempt attempt_stdio_A" "CommandTransport_attempt attempt_stdio_B"
  by (simp_all add: CommandTransport_attempt_def attempt_stdio_A_def attempt_stdio_B_def
      stdio_A_def stdio_B_def)

lemma reachable_stdio: "reachable_by_command registry_stdio world_stdio"
  using reachable_by_command.step [OF reachable_by_command.step [OF reachable_by_command.init
        CommandTransport_stdio(1) connect_stdio_A] CommandTransport_stdio(2) connect_stdio_B] .

lemma Tools_stdio:
  "Tools example_json registry_stdio world_stdio [id_A, id_B] =
     Inr [example_listed id_A ''ping'', example_listed id_B ''ping'', example_listed id_B ''status'']"
  by (simp add: Tools_def registry_stdio_def world_stdio_def stdio_A_def stdio_B_def session_A_def session_B_def
      example_tool_def example_listed_def serverID_of_def Let_def)

lemma Execute_stdio_B_ping:
  "Tool_Execute (example_listed id_B ''ping'') registry_stdio world_stdio [] =
     (Inr ''B pong'', [(1, \<lparr>params_Name = ''ping'', params_Arguments = []\<rparr>)])"
  by (simp add: Tool_Execute_def Execute_def example_listed_def commonTool_literal_def
      example_tool_def registry_stdio_def world_stdio_def stdio_B_def session_B_def example_CallTool_def)


lemma colon_free_AB: "colon_free registry_AB"
  by (simp add: colon_free_def registry_AB_def)

text \<open>
  Claim C1. In every state that connection attempts over command transports lead
  to, and more generally in every registry whose two maps are inverse to each
  other and whose identifiers contain no colon, every tool that \<open>Tools\<close> returns is
  named by the identifier of its owning connection, a colon and the native name,
  so that tools of the same native name from different connections have different
  display names. The owning connection is the one registered under the part of the
  display name before its first colon, and executing the tool calls exactly this
  connection, once, with the native name and the given arguments. The display
  names returned are those of the native tools of the connections visited, in the
  order of the visit; when the visit is a \<open>range\<close> over the registry, they are the
  names of all native tools of all registered connections.
\<close>

theorem listed_tools_route_to_owner:
  "(reachable_by_command c w \<or> inverse_maps c \<and> colon_free c) \<and> Tools js c w keys = Inr ts \<longrightarrow>
     (\<forall>t \<in> set ts. \<exists>k server mcpTool e.
         servers c k = Some server \<and>
         Some mcpTool \<in> fst ` set (ss_Tools (sessions w server)) \<and>
         Tool_Name t = k @ '':'' @ mcp_Name mcpTool \<and>
         spec_split (Tool_Name t) = (k, mcp_Name mcpTool) \<and>
         Tool_Executor t = Some e \<and> exec_serverID e = k \<and> exec_toolName e = mcp_Name mcpTool \<and>
         (\<forall>arguments. snd (Tool_Execute t c w arguments) =
            [(server, \<lparr>params_Name = mcp_Name mcpTool, params_Arguments = arguments\<rparr>)])) \<and>
     (\<forall>t1 \<in> set ts. \<forall>t2 \<in> set ts. \<forall>e1 e2.
         Tool_Executor t1 = Some e1 \<and> Tool_Executor t2 = Some e2 \<and>
         exec_toolName e1 = exec_toolName e2 \<and> exec_serverID e1 \<noteq> exec_serverID e2 \<longrightarrow>
         Tool_Name t1 \<noteq> Tool_Name t2) \<and>
     map Tool_Name ts =
       map (\<lambda>(server, mcpTool). serverID_of c server @ '':'' @ mcp_Name mcpTool)
         (native_tools c w keys) \<and>
     (range_order c keys \<longrightarrow>
        set (map Tool_Name ts) =
          {n. \<exists>k server mcpTool. servers c k = Some server \<and>
                Some mcpTool \<in> fst ` set (ss_Tools (sessions w server)) \<and>
                n = k @ '':'' @ mcp_Name mcpTool})"
proof (intro impI conjI)
  assume asm: "(reachable_by_command c w \<or> inverse_maps c \<and> colon_free c) \<and> Tools js c w keys = Inr ts"
  then have run: "Tools js c w keys = Inr ts" by blast
  have "inverse_maps c \<and> colon_free c"
  proof (cases "reachable_by_command c w")
    case True
    then have "registry_inv c w" by (blast intro: reachable_inv reachable_by_command_reachable)
    then have "inverse_maps c" unfolding registry_inv_def by blast
    with True show ?thesis by (blast intro: reachable_by_command_colon_free)
  next
    case False
    with asm show ?thesis by blast
  qed
  then have inv: "inverse_maps c" and free: "colon_free c" by blast+
  have owner: "\<exists>k server mcpTool. k \<in> set keys \<and> servers c k = Some server \<and>
      Some mcpTool \<in> fst ` set (ss_Tools (sessions w server)) \<and> listed_as k mcpTool t"
    if "t \<in> set ts" for t
    using inv run that by (rule listed_tool_owner)
  show "\<forall>t \<in> set ts. \<exists>k server mcpTool e.
         servers c k = Some server \<and>
         Some mcpTool \<in> fst ` set (ss_Tools (sessions w server)) \<and>
         Tool_Name t = k @ '':'' @ mcp_Name mcpTool \<and>
         spec_split (Tool_Name t) = (k, mcp_Name mcpTool) \<and>
         Tool_Executor t = Some e \<and> exec_serverID e = k \<and> exec_toolName e = mcp_Name mcpTool \<and>
         (\<forall>arguments. snd (Tool_Execute t c w arguments) =
            [(server, \<lparr>params_Name = mcp_Name mcpTool, params_Arguments = arguments\<rparr>)])"
  proof
    fix t assume t: "t \<in> set ts"
    from owner [OF t] obtain k server mcpTool where k: "servers c k = Some server"
      and y: "Some mcpTool \<in> fst ` set (ss_Tools (sessions w server))"
      and l: "listed_as k mcpTool t" by blast
    define e where "e = \<lparr>exec_serverID = k, exec_toolName = mcp_Name mcpTool, exec_originalTool = mcpTool\<rparr>"
    from l have name: "Tool_Name t = k @ '':'' @ mcp_Name mcpTool" and ex: "Tool_Executor t = Some e"
      by (simp_all add: listed_as_def e_def)
    from free k have "CHR '':'' \<notin> set k" by (rule colon_freeD)
    then have split: "spec_split (Tool_Name t) = (k, mcp_Name mcpTool)"
      unfolding name by (rule spec_split_display)
    have calls: "\<forall>arguments. snd (Tool_Execute t c w arguments) =
            [(server, \<lparr>params_Name = mcp_Name mcpTool, params_Arguments = arguments\<rparr>)]"
      using l k by (blast intro: Tool_Execute_listed)
    have "exec_serverID e = k" "exec_toolName e = mcp_Name mcpTool" by (simp_all add: e_def)
    with k y name ex split calls show "\<exists>k server mcpTool e.
         servers c k = Some server \<and>
         Some mcpTool \<in> fst ` set (ss_Tools (sessions w server)) \<and>
         Tool_Name t = k @ '':'' @ mcp_Name mcpTool \<and>
         spec_split (Tool_Name t) = (k, mcp_Name mcpTool) \<and>
         Tool_Executor t = Some e \<and> exec_serverID e = k \<and> exec_toolName e = mcp_Name mcpTool \<and>
         (\<forall>arguments. snd (Tool_Execute t c w arguments) =
            [(server, \<lparr>params_Name = mcp_Name mcpTool, params_Arguments = arguments\<rparr>)])"
      by blast
  qed
  show "\<forall>t1 \<in> set ts. \<forall>t2 \<in> set ts. \<forall>e1 e2.
         Tool_Executor t1 = Some e1 \<and> Tool_Executor t2 = Some e2 \<and>
         exec_toolName e1 = exec_toolName e2 \<and> exec_serverID e1 \<noteq> exec_serverID e2 \<longrightarrow>
         Tool_Name t1 \<noteq> Tool_Name t2"
  proof (intro ballI allI impI)
    fix t1 t2 e1 e2
    assume t1: "t1 \<in> set ts" and t2: "t2 \<in> set ts"
      and e: "Tool_Executor t1 = Some e1 \<and> Tool_Executor t2 = Some e2 \<and>
         exec_toolName e1 = exec_toolName e2 \<and> exec_serverID e1 \<noteq> exec_serverID e2"
    from owner [OF t1] obtain k1 m1 where l1: "listed_as k1 m1 t1" by blast
    from owner [OF t2] obtain k2 m2 where l2: "listed_as k2 m2 t2" by blast
    from l1 e have e1: "exec_serverID e1 = k1" "exec_toolName e1 = mcp_Name m1"
      by (auto simp: listed_as_def)
    from l2 e have e2: "exec_serverID e2 = k2" "exec_toolName e2 = mcp_Name m2"
      by (auto simp: listed_as_def)
    from e e1 e2 have "mcp_Name m1 = mcp_Name m2" "k1 \<noteq> k2" by simp_all
    with l1 l2 show "Tool_Name t1 \<noteq> Tool_Name t2" by (rule listed_as_distinct)
  qed
  show "map Tool_Name ts =
       map (\<lambda>(server, mcpTool). serverID_of c server @ '':'' @ mcp_Name mcpTool)
         (native_tools c w keys)"
    using run by (rule Tools_names)
  show "set (map Tool_Name ts) =
          {n. \<exists>k server mcpTool. servers c k = Some server \<and>
                Some mcpTool \<in> fst ` set (ss_Tools (sessions w server)) \<and>
                n = k @ '':'' @ mcp_Name mcpTool}"
    if "range_order c keys"
    using inv that run by (rule Tools_name_set)
qed

theorem listed_tools_route_to_owner_witness:
  "reachable_by_command registry_stdio world_stdio \<and>
   Tools example_json registry_stdio world_stdio [id_A, id_B] =
     Inr [example_listed id_A ''ping'', example_listed id_B ''ping'', example_listed id_B ''status''] \<and>
   (\<exists>k server mcpTool.
       servers registry_stdio k = Some server \<and>
       Some mcpTool \<in> fst ` set (ss_Tools (sessions world_stdio server)) \<and>
       spec_split (Tool_Name (example_listed id_B ''ping'')) = (k, mcp_Name mcpTool) \<and>
       snd (Tool_Execute (example_listed id_B ''ping'') registry_stdio world_stdio []) =
         [(server, \<lparr>params_Name = mcp_Name mcpTool, params_Arguments = []\<rparr>)]) \<and>
   Tool_Name (example_listed id_B ''ping'') = ''mcp-server-19700101-010000-deadbeef:ping'' \<and>
   servers registry_stdio (fst (spec_split ''mcp-server-19700101-010000-deadbeef:ping'')) = Some 1 \<and>
   Tool_Execute (example_listed id_B ''ping'') registry_stdio world_stdio [] =
     (Inr ''B pong'', [(1, \<lparr>params_Name = ''ping'', params_Arguments = []\<rparr>)]) \<and>
   inverse_maps registry_AB \<and> colon_free registry_AB \<and>
   range_order registry_AB [''A'', ''B''] \<and> range_order registry_AB [''B'', ''A''] \<and>
   Tools example_json registry_AB world_AB [''A'', ''B''] =
     Inr [example_listed ''A'' ''ping'', example_listed ''B'' ''ping'', example_listed ''B'' ''status''] \<and>
   map Tool_Name [example_listed ''A'' ''ping'', example_listed ''B'' ''ping'', example_listed ''B'' ''status''] =
     [''A:ping'', ''B:ping'', ''B:status''] \<and>
   Tools example_json registry_AB world_AB [''B'', ''A''] =
     Inr [example_listed ''B'' ''ping'', example_listed ''B'' ''status'', example_listed ''A'' ''ping''] \<and>
   (\<exists>k server mcpTool.
       servers registry_AB k = Some server \<and>
       Some mcpTool \<in> fst ` set (ss_Tools (sessions world_AB server)) \<and>
       spec_split (Tool_Name (example_listed ''B'' ''ping'')) = (k, mcp_Name mcpTool) \<and>
       snd (Tool_Execute (example_listed ''B'' ''ping'') registry_AB world_AB []) =
         [(server, \<lparr>params_Name = mcp_Name mcpTool, params_Arguments = []\<rparr>)]) \<and>
   spec_split ''B:ping'' = (''B'', ''ping'') \<and>
   Tool_Execute (example_listed ''B'' ''ping'') registry_AB world_AB [] =
     (Inr ''B pong'', [(1, \<lparr>params_Name = ''ping'', params_Arguments = []\<rparr>)]) \<and>
   {n. \<exists>k server mcpTool. servers registry_AB k = Some server \<and>
         Some mcpTool \<in> fst ` set (ss_Tools (sessions world_AB server)) \<and>
         n = k @ '':'' @ mcp_Name mcpTool} = {''A:ping'', ''B:ping'', ''B:status''}"
proof -
  note stdio = listed_tools_route_to_owner [of registry_stdio world_stdio example_json "[id_A, id_B]"
      "[example_listed id_A ''ping'', example_listed id_B ''ping'', example_listed id_B ''status'']"]
  have member_stdio: "example_listed id_B ''ping'' \<in>
      set [example_listed id_A ''ping'', example_listed id_B ''ping'', example_listed id_B ''status'']"
    by simp
  have owner_stdio: "\<exists>k server mcpTool.
       servers registry_stdio k = Some server \<and>
       Some mcpTool \<in> fst ` set (ss_Tools (sessions world_stdio server)) \<and>
       spec_split (Tool_Name (example_listed id_B ''ping'')) = (k, mcp_Name mcpTool) \<and>
       snd (Tool_Execute (example_listed id_B ''ping'') registry_stdio world_stdio []) =
         [(server, \<lparr>params_Name = mcp_Name mcpTool, params_Arguments = []\<rparr>)]"
    using stdio reachable_stdio Tools_stdio member_stdio by blast
  have name_stdio: "Tool_Name (example_listed id_B ''ping'') = ''mcp-server-19700101-010000-deadbeef:ping''"
    by (simp add: id_B_def)
  have prefix_stdio:
    "servers registry_stdio (fst (spec_split ''mcp-server-19700101-010000-deadbeef:ping'')) = Some 1"
    by (simp add: spec_split_def registry_stdio_def id_A_def id_B_def)
  note inst = listed_tools_route_to_owner [of registry_AB world_AB example_json "[''A'', ''B'']"
      "[example_listed ''A'' ''ping'', example_listed ''B'' ''ping'', example_listed ''B'' ''status'']"]
  have member: "example_listed ''B'' ''ping'' \<in>
      set [example_listed ''A'' ''ping'', example_listed ''B'' ''ping'', example_listed ''B'' ''status'']"
    by simp
  have owner: "\<exists>k server mcpTool.
       servers registry_AB k = Some server \<and>
       Some mcpTool \<in> fst ` set (ss_Tools (sessions world_AB server)) \<and>
       spec_split (Tool_Name (example_listed ''B'' ''ping'')) = (k, mcp_Name mcpTool) \<and>
       snd (Tool_Execute (example_listed ''B'' ''ping'') registry_AB world_AB []) =
         [(server, \<lparr>params_Name = mcp_Name mcpTool, params_Arguments = []\<rparr>)]"
    using inst inverse_maps_AB colon_free_AB Tools_AB member by blast
  have names: "map Tool_Name [example_listed ''A'' ''ping'', example_listed ''B'' ''ping'', example_listed ''B'' ''status''] =
     [''A:ping'', ''B:ping'', ''B:status'']" by simp
  have split: "spec_split ''B:ping'' = (''B'', ''ping'')" by (simp add: spec_split_def)
  have order: "range_order registry_AB [''A'', ''B'']" "range_order registry_AB [''B'', ''A'']"
    by (auto simp: range_order_def registry_AB_def)
  have "set (map Tool_Name [example_listed ''A'' ''ping'', example_listed ''B'' ''ping'', example_listed ''B'' ''status'']) =
      {n. \<exists>k server mcpTool. servers registry_AB k = Some server \<and>
         Some mcpTool \<in> fst ` set (ss_Tools (sessions world_AB server)) \<and>
         n = k @ '':'' @ mcp_Name mcpTool}"
    using inst inverse_maps_AB colon_free_AB Tools_AB order(1) by blast
  then have all: "{n. \<exists>k server mcpTool. servers registry_AB k = Some server \<and>
         Some mcpTool \<in> fst ` set (ss_Tools (sessions world_AB server)) \<and>
         n = k @ '':'' @ mcp_Name mcpTool} = {''A:ping'', ''B:ping'', ''B:status''}"
    by (simp only: names) simp
  show ?thesis
    using reachable_stdio Tools_stdio owner_stdio name_stdio prefix_stdio Execute_stdio_B_ping
      inverse_maps_AB colon_free_AB order Tools_AB Tools_BA owner Execute_B_ping names split all
    by blast
qed

lemma Tools_of_server_none:
  "list_all (\<lambda>(mcpTool, err). mcpTool = None \<and> err = None) ys \<Longrightarrow>
   Tools_of_server js c server ys result = Inr result"
  by (induction ys) auto

lemma Tools_of_servers_none:
  "(\<And>k server. servers c k = Some server \<Longrightarrow> reports_no_tools (sessions w server)) \<Longrightarrow>
   Tools_of_servers js c w keys result = Inr result"
proof (induction keys)
  case Nil
  then show ?case by simp
next
  case (Cons k keys)
  show ?case
  proof (cases "servers c k")
    case None
    with Cons show ?thesis by simp
  next
    case (Some server)
    then have "reports_no_tools (sessions w server)" by (rule Cons.prems)
    then have "Tools_of_server js c server (ss_Tools (sessions w server)) result = Inr result"
      unfolding reports_no_tools_def by (rule Tools_of_server_none)
    with Some Cons show ?thesis by simp
  qed
qed

text \<open>
  Claim C3. On a registry without connections \<open>Tools\<close> fails with the error "no
  servers connected". On a registry with connections, each of which reports no
  tool, it fails with the error "no tools found", whatever the order of the visit.
  The two errors, and their messages, are different.
\<close>

theorem empty_registry_and_no_tools:
  "(dom (servers c) = {} \<longrightarrow> Tools js c w keys = Inl NoServersConnected) \<and>
   (dom (servers c) \<noteq> {} \<and>
    (\<forall>k server. servers c k = Some server \<longrightarrow> reports_no_tools (sessions w server)) \<longrightarrow>
      Tools js c w keys = Inl NoToolsFound) \<and>
   NoServersConnected \<noteq> NoToolsFound \<and>
   Error NoServersConnected \<noteq> Error NoToolsFound"
proof (intro conjI impI)
  assume "dom (servers c) = {}"
  then show "Tools js c w keys = Inl NoServersConnected" by (simp add: Tools_def)
next
  assume a: "dom (servers c) \<noteq> {} \<and>
    (\<forall>k server. servers c k = Some server \<longrightarrow> reports_no_tools (sessions w server))"
  then have "Tools_of_servers js c w keys [] = Inr []"
    by (intro Tools_of_servers_none) blast
  with a show "Tools js c w keys = Inl NoToolsFound" by (simp add: Tools_def)
next
  show "NoServersConnected \<noteq> NoToolsFound" by simp
  show "Error NoServersConnected \<noteq> Error NoToolsFound" by simp
qed

theorem empty_registry_and_no_tools_witness:
  "dom (servers (NewClient ''ttobot'' ''1.0.0'')) = {} \<and>
   Tools example_json (NewClient ''ttobot'' ''1.0.0'') world_0 [] = Inl NoServersConnected \<and>
   dom (servers registry_quiet) \<noteq> {} \<and>
   reports_no_tools (sessions world_quiet 0) \<and>
   Tools example_json registry_quiet world_quiet [''quiet''] = Inl NoToolsFound"
proof -
  have e: "dom (servers (NewClient ''ttobot'' ''1.0.0'')) = {}" by (simp add: NewClient_def)
  have q: "dom (servers registry_quiet) \<noteq> {}" by (simp add: registry_quiet_def)
  have n: "\<forall>k server. servers registry_quiet k = Some server \<longrightarrow> reports_no_tools (sessions world_quiet server)"
    by (simp add: world_quiet_def session_quiet_def reports_no_tools_def)
  have n0: "reports_no_tools (sessions world_quiet 0)"
    by (simp add: world_quiet_def session_quiet_def reports_no_tools_def)
  have "Tools example_json (NewClient ''ttobot'' ''1.0.0'') world_0 [] = Inl NoServersConnected"
    using empty_registry_and_no_tools [of "NewClient ''ttobot'' ''1.0.0''" example_json world_0 "[]"] e
    by blast
  moreover have "Tools example_json registry_quiet world_quiet [''quiet''] = Inl NoToolsFound"
    using empty_registry_and_no_tools [of registry_quiet example_json world_quiet "[''quiet'']"] q n
    by blast
  ultimately show ?thesis using e q n0 by blast
qed

subsection \<open>Executing a tool whose connection is gone\<close>

text \<open>
  Claim C6. A tool returned by \<open>Tools\<close> has an executor, and the identifier that
  the executor holds is registered at that time. Executed on any registry in which
  this identifier is no longer registered, the tool fails with the error "server ...
  not found", and no provider is called; executed by its display name through
  \<open>ExecuteToolCall\<close>, it fails with that error wrapped.
\<close>

theorem stale_tool_fails:
  "inverse_maps c \<and> Tools js c w keys = Inr ts \<and> t \<in> set ts \<longrightarrow>
     (\<exists>e. Tool_Executor t = Some e \<and> servers c (exec_serverID e) \<noteq> None \<and>
          (\<forall>c' w' arguments. servers c' (exec_serverID e) = None \<longrightarrow>
             Execute e c' w' arguments = (Inl (ServerNotFound (exec_serverID e)), []) \<and>
             Tool_Execute t c' w' arguments = (Inl (ServerNotFound (exec_serverID e)), []) \<and>
             Error (ServerNotFound (exec_serverID e)) = ''server '' @ exec_serverID e @ '' not found'' \<and>
             (\<forall>oc toolCall.
                find (\<lambda>u. fn_Name (Tool_Function u) = Function_Name toolCall) (tools oc) = Some t \<longrightarrow>
                ExecuteToolCall oc c' w' toolCall =
                  (Inl (ToolExecutionFailed (ServerNotFound (exec_serverID e))), []))))"
proof
  assume "inverse_maps c \<and> Tools js c w keys = Inr ts \<and> t \<in> set ts"
  then have inv: "inverse_maps c" and run: "Tools js c w keys = Inr ts" and t: "t \<in> set ts" by blast+
  from listed_tool_owner [OF inv run t]
  obtain k server mcpTool where k: "servers c k = Some server" and l: "listed_as k mcpTool t" by blast
  define e where "e = \<lparr>exec_serverID = k, exec_toolName = mcp_Name mcpTool, exec_originalTool = mcpTool\<rparr>"
  from l have ex: "Tool_Executor t = Some e" by (simp add: listed_as_def e_def)
  have id: "exec_serverID e = k" by (simp add: e_def)
  have gone: "Execute e c' w' arguments = (Inl (ServerNotFound (exec_serverID e)), []) \<and>
      Tool_Execute t c' w' arguments = (Inl (ServerNotFound (exec_serverID e)), []) \<and>
      Error (ServerNotFound (exec_serverID e)) = ''server '' @ exec_serverID e @ '' not found'' \<and>
      (\<forall>oc toolCall.
          find (\<lambda>u. fn_Name (Tool_Function u) = Function_Name toolCall) (tools oc) = Some t \<longrightarrow>
          ExecuteToolCall oc c' w' toolCall =
            (Inl (ToolExecutionFailed (ServerNotFound (exec_serverID e))), []))"
    if "servers c' (exec_serverID e) = None" for c' w' arguments
  proof -
    have a: "Execute e c' w' args = (Inl (ServerNotFound (exec_serverID e)), [])" for args
      using that by (rule Execute_missing)
    then have b: "Tool_Execute t c' w' args = (Inl (ServerNotFound (exec_serverID e)), [])" for args
      using ex by (simp add: Tool_Execute_def)
    then have "ExecuteToolCall oc c' w' toolCall =
        (Inl (ToolExecutionFailed (ServerNotFound (exec_serverID e))), [])"
      if "find (\<lambda>u. fn_Name (Tool_Function u) = Function_Name toolCall) (tools oc) = Some t" for oc toolCall
      using that by (simp add: ExecuteToolCall_def)
    with a b show ?thesis by simp
  qed
  from k id have "servers c (exec_serverID e) \<noteq> None" by simp
  with ex gone show "\<exists>e. Tool_Executor t = Some e \<and> servers c (exec_serverID e) \<noteq> None \<and>
          (\<forall>c' w' arguments. servers c' (exec_serverID e) = None \<longrightarrow>
             Execute e c' w' arguments = (Inl (ServerNotFound (exec_serverID e)), []) \<and>
             Tool_Execute t c' w' arguments = (Inl (ServerNotFound (exec_serverID e)), []) \<and>
             Error (ServerNotFound (exec_serverID e)) = ''server '' @ exec_serverID e @ '' not found'' \<and>
             (\<forall>oc toolCall.
                find (\<lambda>u. fn_Name (Tool_Function u) = Function_Name toolCall) (tools oc) = Some t \<longrightarrow>
                ExecuteToolCall oc c' w' toolCall =
                  (Inl (ToolExecutionFailed (ServerNotFound (exec_serverID e))), [])))"
    by blast
qed


theorem stale_tool_fails_witness:
  "inverse_maps registry_AB \<and>
   Tools example_json registry_AB world_AB [''A'', ''B''] =
     Inr [example_listed ''A'' ''ping'', example_listed ''B'' ''ping'', example_listed ''B'' ''status''] \<and>
   servers registry_A ''B'' = None \<and>
   Tool_Execute (example_listed ''B'' ''ping'') registry_A world_A [] = (Inl (ServerNotFound ''B''), []) \<and>
   Error (ServerNotFound ''B'') = ''server B not found''"
proof -
  note inst = stale_tool_fails [of registry_AB example_json world_AB "[''A'', ''B'']"
      "[example_listed ''A'' ''ping'', example_listed ''B'' ''ping'', example_listed ''B'' ''status'']"
      "example_listed ''B'' ''ping''"]
  have member: "example_listed ''B'' ''ping'' \<in>
      set [example_listed ''A'' ''ping'', example_listed ''B'' ''ping'', example_listed ''B'' ''status'']"
    by simp
  from inst inverse_maps_AB Tools_AB member
  obtain e where e: "Tool_Executor (example_listed ''B'' ''ping'') = Some e"
    and gone: "\<And>c' w' arguments. servers c' (exec_serverID e) = None \<Longrightarrow>
        Tool_Execute (example_listed ''B'' ''ping'') c' w' arguments =
          (Inl (ServerNotFound (exec_serverID e)), [])"
    by blast
  from e have id: "exec_serverID e = ''B''"
    by (auto simp: example_listed_def commonTool_literal_def)
  have absent: "servers registry_A ''B'' = None" by (simp add: registry_A_def)
  with gone [of registry_A world_A "[]"] id
  have "Tool_Execute (example_listed ''B'' ''ping'') registry_A world_A [] = (Inl (ServerNotFound ''B''), [])"
    by simp
  with inverse_maps_AB Tools_AB absent show ?thesis by simp
qed



subsection \<open>The text that a tool returns\<close>

lemma write_Content_concat: "write_Content cs content = content @ spec_concatenation cs"
proof (induction cs content rule: write_Content.induct)
  case (1 content)
  then show ?case by (simp add: spec_concatenation_def)
next
  case (2 str cs content)
  then show ?case by (simp add: spec_concatenation_def)
next
  case (3 jsonBytes cs content)
  then show ?case by (simp add: spec_concatenation_def)
next
  case (4 err cs content)
  then show ?case by (simp add: spec_concatenation_def)
qed

text \<open>
  Claim C7, amended. When the call of the provider succeeds and its result carries
  a content list, \<open>Execute\<close> returns the concatenation, in order, of the text of the
  text fragments and the JSON form of the other fragments, skipping the fragments
  whose serialization fails; when the result carries no content list, it returns
  the fixed text "Tool executed successfully". In both cases no error is returned,
  and the error flag of the result is not consulted: a tool error that the provider
  reports stays in that flag.
\<close>

theorem Execute_result_text:
  "servers c (exec_serverID e) = Some server \<and>
   ss_CallTool (sessions w server)
     \<lparr>params_Name = exec_toolName e, params_Arguments = arguments\<rparr> =
     Inr \<lparr>result_Content = content, result_IsError = flag\<rparr> \<longrightarrow>
     fst (Execute e c w arguments) =
       Inr (case content of
              Some cs \<Rightarrow> spec_concatenation cs
            | None \<Rightarrow> ''Tool executed successfully'')"
  by (simp add: Execute_def write_Content_concat split: option.splits)

lemma Execute_S_run:
  "ss_CallTool (sessions (world_S r) 0) p = Inr r \<and> servers registry_S (exec_serverID executor_S_run) = Some 0"
  by (simp add: world_S_def session_returning_def registry_S_def executor_S_run_def)

theorem Execute_result_text_witness:
  "servers registry_S (exec_serverID executor_S_run) = Some 0 \<and>
   ss_CallTool (sessions (world_S result_with_error) 0)
     \<lparr>params_Name = exec_toolName executor_S_run, params_Arguments = []\<rparr> =
     Inr \<lparr>result_Content =
            Some [TextContent ''disk full'', OtherContent (Inr ''{}''),
                  OtherContent (Inl (External ''unsupported value'')), TextContent ''!''],
          result_IsError = True\<rparr> \<and>
   fst (Execute executor_S_run registry_S (world_S result_with_error) []) = Inr ''disk full{}!''"
proof -
  have call: "ss_CallTool (sessions (world_S result_with_error) 0)
     \<lparr>params_Name = exec_toolName executor_S_run, params_Arguments = []\<rparr> =
     Inr \<lparr>result_Content =
            Some [TextContent ''disk full'', OtherContent (Inr ''{}''),
                  OtherContent (Inl (External ''unsupported value'')), TextContent ''!''],
          result_IsError = True\<rparr>"
    using Execute_S_run [of result_with_error] by (simp add: result_with_error_def)
  have reg: "servers registry_S (exec_serverID executor_S_run) = Some 0"
    using Execute_S_run by blast
  from Execute_result_text [of registry_S executor_S_run 0 "world_S result_with_error" "[]"
      "Some [TextContent ''disk full'', OtherContent (Inr ''{}''),
             OtherContent (Inl (External ''unsupported value'')), TextContent ''!'']" True] reg call
  have "fst (Execute executor_S_run registry_S (world_S result_with_error) []) =
      Inr (spec_concatenation [TextContent ''disk full'', OtherContent (Inr ''{}''),
             OtherContent (Inl (External ''unsupported value'')), TextContent ''!''])"
    by simp
  then have "fst (Execute executor_S_run registry_S (world_S result_with_error) []) = Inr ''disk full{}!''"
    by (simp add: spec_concatenation_def)
  with reg call show ?thesis by blast
qed

text \<open>
  Claim C7 says that every successful invocation returns the concatenation of the
  fragments. For a result whose content is \<open>nil\<close> the source returns "Tool executed
  successfully", which is not the concatenation of no fragments.
\<close>

theorem no_content_is_not_concatenated:
  "servers registry_S (exec_serverID executor_S_run) = Some 0 \<and>
   ss_CallTool (sessions (world_S result_without_content) 0)
     \<lparr>params_Name = exec_toolName executor_S_run, params_Arguments = []\<rparr> =
     Inr \<lparr>result_Content = None, result_IsError = False\<rparr> \<and>
   fst (Execute executor_S_run registry_S (world_S result_without_content) []) =
     Inr ''Tool executed successfully'' \<and>
   fst (Execute executor_S_run registry_S (world_S result_without_content) []) \<noteq>
     Inr (spec_concatenation [])"
  by (simp add: Execute_def registry_S_def executor_S_run_def world_S_def session_returning_def
      result_without_content_def spec_concatenation_def)



subsection \<open>Tool calls of a chat response\<close>

lemma HandleToolCalls_loop_map:
  "fst (HandleToolCalls_loop oc c w toolCalls newMessages made) =
     newMessages @ map (spec_result_message oc c w) toolCalls"
proof (induction toolCalls arbitrary: newMessages made)
  case Nil
  then show ?case by simp
next
  case (Cons toolCall rest)
  obtain r calls where one: "ExecuteToolCall oc c w toolCall = (r, calls)"
    by (cases "ExecuteToolCall oc c w toolCall")
  have "spec_result_message oc c w toolCall =
      \<lparr>Role = ''tool'',
       Content = (case r of Inl err \<Rightarrow> ''Tool execution failed: '' @ Error err | Inr result \<Rightarrow> result),
       ToolCalls = []\<rparr>"
    by (simp add: spec_result_message_def one)
  with one Cons.IH show ?case by (simp add: Let_def)
qed

text \<open>
  Claim C4. \<open>HandleToolCallsInResponse\<close> never returns an error. It returns one
  message for each tool call of the response, in the order of the calls: the
  message of a call holds the text that the tool returned, or, when the call
  failed, the text "Tool execution failed: " followed by the message of the error.
  For a response without tool calls it returns no message.
\<close>

theorem one_message_per_tool_call:
  "fst (HandleToolCallsInResponse oc c w response) =
     (map (spec_result_message oc c w) (ToolCalls (response_Message response)), None) \<and>
   length (fst (fst (HandleToolCallsInResponse oc c w response))) =
     length (ToolCalls (response_Message response)) \<and>
   (fst (ExecuteToolCall oc c w toolCall) = Inl err \<longrightarrow>
      spec_result_message oc c w toolCall =
        \<lparr>Role = ''tool'', Content = ''Tool execution failed: '' @ Error err, ToolCalls = []\<rparr>) \<and>
   (fst (ExecuteToolCall oc c w toolCall) = Inr result \<longrightarrow>
      spec_result_message oc c w toolCall = \<lparr>Role = ''tool'', Content = result, ToolCalls = []\<rparr>) \<and>
   HandleToolCallsInResponse oc c w
     \<lparr>response_Message = \<lparr>Role = role, Content = content, ToolCalls = []\<rparr>\<rparr> = (([], None), [])"
proof -
  have main: "fst (HandleToolCallsInResponse oc c w response) =
     (map (spec_result_message oc c w) (ToolCalls (response_Message response)), None)"
  proof (cases "ToolCalls (response_Message response)")
    case Nil
    then show ?thesis by (simp add: HandleToolCallsInResponse_def)
  next
    case (Cons toolCall rest)
    obtain newMessages made where loop:
      "HandleToolCalls_loop oc c w (toolCall # rest) [] [] = (newMessages, made)"
      by (cases "HandleToolCalls_loop oc c w (toolCall # rest) [] []")
    have "newMessages = fst (HandleToolCalls_loop oc c w (toolCall # rest) [] [])"
      unfolding loop by simp
    then have "newMessages = map (spec_result_message oc c w) (toolCall # rest)"
      by (simp only: HandleToolCalls_loop_map append_Nil)
    with Cons loop show ?thesis by (simp add: HandleToolCallsInResponse_def)
  qed
  then have "length (fst (fst (HandleToolCallsInResponse oc c w response))) =
     length (ToolCalls (response_Message response))" by simp
  moreover have "HandleToolCallsInResponse oc c w
     \<lparr>response_Message = \<lparr>Role = role, Content = content, ToolCalls = []\<rparr>\<rparr> = (([], None), [])"
    by (simp add: HandleToolCallsInResponse_def)
  ultimately show ?thesis using main by (simp add: spec_result_message_def)
qed

lemma ExecuteToolCall_B_ping:
  "ExecuteToolCall example_ollama registry_AB world_AB
     \<lparr>Function_Name = ''B:ping'', Function_Arguments = []\<rparr> =
     (Inr ''B pong'', [(1, \<lparr>params_Name = ''ping'', params_Arguments = []\<rparr>)])"
  by (simp add: ExecuteToolCall_def example_ollama_def Execute_B_ping)
    (simp add: example_listed_def commonTool_literal_def)


lemma ExecuteToolCall_B_status:
  "ExecuteToolCall example_ollama registry_AB world_AB
     \<lparr>Function_Name = ''B:status'', Function_Arguments = []\<rparr> =
     (Inl (ToolExecutionFailed (CallToolFailed ''status'' (External ''unknown tool''))),
      [(1, \<lparr>params_Name = ''status'', params_Arguments = []\<rparr>)])"
  by (simp add: ExecuteToolCall_def example_ollama_def Tool_Execute_def Execute_def
      example_listed_def commonTool_literal_def example_tool_def registry_AB_def world_AB_def
      session_B_def example_CallTool_def)

theorem one_message_per_tool_call_witness:
  "fst (ExecuteToolCall example_ollama registry_AB world_AB
     \<lparr>Function_Name = ''B:ping'', Function_Arguments = []\<rparr>) = Inr ''B pong'' \<and>
   fst (ExecuteToolCall example_ollama registry_AB world_AB
     \<lparr>Function_Name = ''B:status'', Function_Arguments = []\<rparr>) =
     Inl (ToolExecutionFailed (CallToolFailed ''status'' (External ''unknown tool''))) \<and>
   fst (HandleToolCallsInResponse example_ollama registry_AB world_AB example_response) =
     ([\<lparr>Role = ''tool'', Content = ''B pong'', ToolCalls = []\<rparr>,
       \<lparr>Role = ''tool'',
        Content = ''Tool execution failed: tool execution failed: failed to call tool status: unknown tool'',
        ToolCalls = []\<rparr>], None)"
proof -
  have ping: "fst (ExecuteToolCall example_ollama registry_AB world_AB
     \<lparr>Function_Name = ''B:ping'', Function_Arguments = []\<rparr>) = Inr ''B pong''"
    by (simp add: ExecuteToolCall_B_ping)
  have status: "fst (ExecuteToolCall example_ollama registry_AB world_AB
     \<lparr>Function_Name = ''B:status'', Function_Arguments = []\<rparr>) =
     Inl (ToolExecutionFailed (CallToolFailed ''status'' (External ''unknown tool'')))"
    by (simp add: ExecuteToolCall_B_status)
  have m1: "spec_result_message example_ollama registry_AB world_AB
      \<lparr>Function_Name = ''B:ping'', Function_Arguments = []\<rparr> =
      \<lparr>Role = ''tool'', Content = ''B pong'', ToolCalls = []\<rparr>"
    using one_message_per_tool_call [of example_ollama registry_AB world_AB example_response
        "\<lparr>Function_Name = ''B:ping'', Function_Arguments = []\<rparr>" _ "''B pong''"] ping
    by blast
  have m2: "spec_result_message example_ollama registry_AB world_AB
      \<lparr>Function_Name = ''B:status'', Function_Arguments = []\<rparr> =
      \<lparr>Role = ''tool'',
       Content = ''Tool execution failed: '' @
         Error (ToolExecutionFailed (CallToolFailed ''status'' (External ''unknown tool''))),
       ToolCalls = []\<rparr>"
    using one_message_per_tool_call [of example_ollama registry_AB world_AB example_response
        "\<lparr>Function_Name = ''B:status'', Function_Arguments = []\<rparr>"
        "ToolExecutionFailed (CallToolFailed ''status'' (External ''unknown tool''))"] status
    by blast
  have all: "fst (HandleToolCallsInResponse example_ollama registry_AB world_AB example_response) =
      (map (spec_result_message example_ollama registry_AB world_AB)
         (ToolCalls (response_Message example_response)), None)"
    using one_message_per_tool_call [of example_ollama registry_AB world_AB example_response] by blast
  have "fst (HandleToolCallsInResponse example_ollama registry_AB world_AB example_response) =
     ([\<lparr>Role = ''tool'', Content = ''B pong'', ToolCalls = []\<rparr>,
       \<lparr>Role = ''tool'',
        Content = ''Tool execution failed: tool execution failed: failed to call tool status: unknown tool'',
        ToolCalls = []\<rparr>], None)"
    unfolding all by (simp add: example_response_def m1 m2)
  with ping status show ?thesis by blast
qed


subsection \<open>The schema round trip\<close>


lemma decode_elems_any: "decode_elems decode_any zero vs old = Inr vs"
  by (induction vs arbitrary: old) (simp_all add: decode_any_def)

lemma decode_elems_strings: "decode_elems decode_string zero (map AnyString xs) old = Inr xs"
  by (induction xs arbitrary: old) (simp_all add: decode_string_def)

lemma decode_slice_anys [simp]: "decode_slice ty decode_any zero (marshal_anys xs) old = Inr xs"
  by (simp add: decode_slice_def marshal_anys_def decode_elems_any)

lemma decode_slice_strings [simp]: "decode_slice ty decode_string zero (marshal_strings xs) old = Inr xs"
  by (simp add: decode_slice_def marshal_strings_def decode_elems_strings)

lemma decode_entries_fold:
  "(\<And>k x. (k, x) \<in> set kvs \<Longrightarrow> dec (enc x) zero = Inr (g x)) \<Longrightarrow>
   decode_entries dec zero (map (\<lambda>(k, x). (k, enc x)) kvs) m =
     Inr (foldl (\<lambda>a (k, x). fmupd k (g x) a) m kvs)"
proof (induction kvs arbitrary: m)
  case Nil
  then show ?case by simp
next
  case (Cons kv kvs)
  obtain k x where kv: "kv = (k, x)" by (cases kv)
  have "dec (enc x) zero = Inr (g x)" by (rule Cons.prems [of k x]) (simp add: kv)
  moreover have rest: "dec (enc x') zero = Inr (g x')" if "(k', x') \<in> set kvs" for k' x'
    by (rule Cons.prems [of k' x']) (simp add: that)
  have "decode_entries dec zero (map (\<lambda>(k, x). (k, enc x)) kvs) (fmupd k (g x) m) =
      Inr (foldl (\<lambda>a (k, x). fmupd k (g x) a) (fmupd k (g x) m) kvs)"
    using rest by (rule Cons.IH)
  ultimately show ?case by (simp add: kv)
qed

lemma fmlookup_fold:
  "distinct (map fst kvs) \<Longrightarrow>
   fmlookup (foldl (\<lambda>a (k, x). fmupd k (g x) a) m kvs) k' =
     (case map_of kvs k' of Some x \<Rightarrow> Some (g x) | None \<Rightarrow> fmlookup m k')"
proof (induction kvs arbitrary: m)
  case Nil
  then show ?case by simp
next
  case (Cons kv kvs)
  obtain k x where kv: "kv = (k, x)" by (cases kv)
  from Cons.prems kv have d: "distinct (map fst kvs)" and fresh: "map_of kvs k = None"
    by (auto simp: map_of_eq_None_iff)
  show ?case
    using Cons.IH [OF d, of "fmupd k (g x) m"] fresh
    by (auto simp: kv split: option.splits)
qed

lemma distinct_sorted_list_of_fset: "distinct (sorted_list_of_fset S)"
  by (simp add: sorted_list_of_fset.rep_eq)

lemma fold_sorted_list:
  "foldl (\<lambda>a (k, x). fmupd k (g x) a) fmempty (sorted_list_of_fmap m) = fmmap g m"
proof (rule fmap_ext)
  fix k'
  have "distinct (map fst (sorted_list_of_fmap m))"
    by (simp add: sorted_list_of_fmap_def comp_def distinct_sorted_list_of_fset)
  then have "fmlookup (foldl (\<lambda>a (k, x). fmupd k (g x) a) fmempty (sorted_list_of_fmap m)) k' =
      (case map_of (sorted_list_of_fmap m) k' of Some x \<Rightarrow> Some (g x) | None \<Rightarrow> fmlookup fmempty k')"
    by (rule fmlookup_fold)
  then show "fmlookup (foldl (\<lambda>a (k, x). fmupd k (g x) a) fmempty (sorted_list_of_fmap m)) k' =
      fmlookup (fmmap g m) k'"
    by (simp split: option.splits)
qed

lemma decode_map_marshal:
  assumes "\<And>x. x \<in> fmran' m \<Longrightarrow> dec (enc x) zero = Inr (g x)"
  shows "decode_map ty dec zero (marshal_map enc m) fmempty = Inr (fmmap g m)"
proof (cases "m = fmempty")
  case True
  then show ?thesis by (simp add: decode_map_def marshal_map_def)
next
  case False
  have "dec (enc x) zero = Inr (g x)" if "(k, x) \<in> set (sorted_list_of_fmap m)" for k x
  proof -
    from that have "map_of (sorted_list_of_fmap m) k = Some x"
      by (intro map_of_is_SomeI)
        (simp_all add: sorted_list_of_fmap_def comp_def distinct_sorted_list_of_fset)
    then have "fmlookup m k = Some x" by simp
    then have "x \<in> fmran' m" by (rule fmran'I)
    then show ?thesis by (rule assms)
  qed
  then have "decode_entries dec zero (map (\<lambda>(k, x). (k, enc x)) (sorted_list_of_fmap m)) fmempty =
      Inr (foldl (\<lambda>a (k, x). fmupd k (g x) a) fmempty (sorted_list_of_fmap m))"
    by (rule decode_entries_fold)
  with False show ?thesis by (simp add: decode_map_def marshal_map_def fold_sorted_list)
qed



lemma property_to_ollama:
  assumes "reads_back_strings pt"
  shows "unmarshal_ollama_Property pt (marshal_PropertyDefinition p) zero_ollama_Property =
     Inr (as_ollama_Property pt p)"
proof -
  from assms obtain q where q: "UnmarshalJSON pt (AnyString (prop_Type p)) [] = Inr q"
    unfolding reads_back_strings_def by blast
  show ?thesis
    by (simp add: unmarshal_ollama_Property_def decode_struct_def marshal_PropertyDefinition_def
        omitempty_def ollama_Property_field_def zero_ollama_Property_def as_ollama_Property_def
        decode_any_def decode_string_def q)
qed

lemma property_from_ollama:
  assumes "reads_back_strings pt"
  shows "unmarshal_PropertyDefinition (marshal_ollama_Property pt (as_ollama_Property pt p))
     zero_PropertyDefinition = Inr p"
proof -
  from assms obtain q where q: "UnmarshalJSON pt (AnyString (prop_Type p)) [] = Inr q"
    and m: "MarshalJSON pt q = AnyString (prop_Type p)"
    unfolding reads_back_strings_def by blast
  show ?thesis
    by (simp add: unmarshal_PropertyDefinition_def decode_struct_def marshal_ollama_Property_def
        omitempty_def PropertyDefinition_field_def zero_PropertyDefinition_def as_ollama_Property_def
        decode_any_def decode_string_def q m)
qed


lemma properties_to_ollama:
  assumes "reads_back_strings pt"
  shows "decode_map ty (unmarshal_ollama_Property pt) zero_ollama_Property
      (marshal_map marshal_PropertyDefinition m) fmempty = Inr (fmmap (as_ollama_Property pt) m)"
  by (rule decode_map_marshal) (rule property_to_ollama [OF assms])

lemma as_ollama_Property_inj:
  assumes "reads_back_strings pt"
  shows "inj (as_ollama_Property pt)"
proof (rule injI)
  fix a b assume eq: "as_ollama_Property pt a = as_ollama_Property pt b"
  have "Inr a = unmarshal_PropertyDefinition (marshal_ollama_Property pt (as_ollama_Property pt a))
      zero_PropertyDefinition" by (simp add: property_from_ollama [OF assms])
  also have "\<dots> = Inr b" unfolding eq by (simp add: property_from_ollama [OF assms])
  finally show "a = b" by simp
qed

lemma properties_from_ollama:
  assumes "reads_back_strings pt"
  shows "decode_map ty unmarshal_PropertyDefinition zero_PropertyDefinition
      (marshal_map (marshal_ollama_Property pt) (fmmap (as_ollama_Property pt) m)) fmempty = Inr m"
proof -
  note inj = as_ollama_Property_inj [OF assms]
  have "unmarshal_PropertyDefinition (marshal_ollama_Property pt x) zero_PropertyDefinition =
      Inr (the_inv (as_ollama_Property pt) x)"
    if "x \<in> fmran' (fmmap (as_ollama_Property pt) m)" for x
  proof -
    from that obtain p where x: "x = as_ollama_Property pt p"
      by (auto simp: fmlookup_ran'_iff)
    from inj have "the_inv (as_ollama_Property pt) x = p" unfolding x by (rule the_inv_f_f)
    then show ?thesis unfolding x by (simp add: property_from_ollama [OF assms])
  qed
  then have "decode_map ty unmarshal_PropertyDefinition zero_PropertyDefinition
      (marshal_map (marshal_ollama_Property pt) (fmmap (as_ollama_Property pt) m)) fmempty =
      Inr (fmmap (the_inv (as_ollama_Property pt)) (fmmap (as_ollama_Property pt) m))"
    by (rule decode_map_marshal)
  moreover have "fmmap (the_inv (as_ollama_Property pt)) (fmmap (as_ollama_Property pt) m) = m"
  proof (rule fmap_ext)
    fix k
    show "fmlookup (fmmap (the_inv (as_ollama_Property pt)) (fmmap (as_ollama_Property pt) m)) k =
        fmlookup m k"
      by (cases "fmlookup m k") (simp_all add: the_inv_f_f [OF inj])
  qed
  ultimately show ?thesis by simp
qed

lemma schema_to_ollama_converts:
  assumes "reads_back_strings pt"
  shows "ConvertViaJSON (schema_to_ollama pt tf tt) ps zero_ollama_Parameters =
     Inr (as_ollama_Parameters pt ps)"
  by (simp add: ConvertViaJSON_def schema_to_ollama_def unmarshal_ollama_Parameters_def
      decode_struct_def marshal_ParameterSchema_def omitempty_def ollama_Parameters_field_def
      zero_ollama_Parameters_def as_ollama_Parameters_def decode_any_def decode_string_def
      properties_to_ollama [OF assms])

lemma ollama_to_schema_converts:
  assumes "reads_back_strings pt"
  shows "ConvertViaJSON (ollama_to_schema pt tf tt) (as_ollama_Parameters pt ps) zero_ParameterSchema =
     Inr ps"
  by (simp add: ConvertViaJSON_def ollama_to_schema_def unmarshal_ParameterSchema_def
      decode_struct_def marshal_ollama_Parameters_def omitempty_def ParameterSchema_field_def
      zero_ParameterSchema_def as_ollama_Parameters_def decode_any_def decode_string_def
      properties_from_ollama [OF assms])


text \<open>
  Claim C5. Converting a parameter schema through JSON into the parameters of a
  tool declaration of the inference client, and these back through JSON into a
  parameter schema, succeeds both times and gives the schema back as it was: its
  type, its required fields, its properties with their types, descriptions,
  enumerations and item schemas, its definitions and its item schema. This needs of
  the property type only that a string is read as a property type that is written
  as that string.
\<close>

theorem schema_round_trip:
  "reads_back_strings pt \<longrightarrow>
     (\<exists>parameters.
        ConvertViaJSON (schema_to_ollama pt tf tt) ps zero_ollama_Parameters = Inr parameters \<and>
        oparams_Required parameters = schema_Required ps \<and>
        fmdom (oparams_Properties parameters) = fmdom (schema_Properties ps) \<and>
        ConvertViaJSON (ollama_to_schema pt tf' tt') parameters zero_ParameterSchema = Inr ps)"
proof
  assume pt: "reads_back_strings pt"
  have "ConvertViaJSON (schema_to_ollama pt tf tt) ps zero_ollama_Parameters =
      Inr (as_ollama_Parameters pt ps)"
    using pt by (rule schema_to_ollama_converts)
  moreover have "ConvertViaJSON (ollama_to_schema pt tf' tt') (as_ollama_Parameters pt ps)
      zero_ParameterSchema = Inr ps"
    using pt by (rule ollama_to_schema_converts)
  moreover have "oparams_Required (as_ollama_Parameters pt ps) = schema_Required ps"
    and "fmdom (oparams_Properties (as_ollama_Parameters pt ps)) = fmdom (schema_Properties ps)"
    by (simp_all add: as_ollama_Parameters_def)
  ultimately show "\<exists>parameters.
        ConvertViaJSON (schema_to_ollama pt tf tt) ps zero_ollama_Parameters = Inr parameters \<and>
        oparams_Required parameters = schema_Required ps \<and>
        fmdom (oparams_Properties parameters) = fmdom (schema_Properties ps) \<and>
        ConvertViaJSON (ollama_to_schema pt tf' tt') parameters zero_ParameterSchema = Inr ps"
    by blast
qed

lemma string_or_array_reads_back: "reads_back_strings string_or_array"
  by (simp add: reads_back_strings_def string_or_array_def)

theorem schema_round_trip_witness:
  "reads_back_strings string_or_array \<and>
   schema_Required example_schema = [''path''] \<and>
   fmdom (schema_Properties example_schema) = {|''path'', ''modes''|} \<and>
   (\<exists>parameters.
      ConvertViaJSON (schema_to_ollama string_or_array ''tool.ParameterSchema'' ''*struct'')
        example_schema zero_ollama_Parameters = Inr parameters \<and>
      oparams_Required parameters = [''path''] \<and>
      fmdom (oparams_Properties parameters) = {|''path'', ''modes''|} \<and>
      ConvertViaJSON (ollama_to_schema string_or_array ''struct'' ''*tool.ParameterSchema'')
        parameters zero_ParameterSchema = Inr example_schema)"
proof -
  have r: "schema_Required example_schema = [''path'']"
    and p: "fmdom (schema_Properties example_schema) = {|''path'', ''modes''|}"
    by (simp_all add: example_schema_def)
  from schema_round_trip [of string_or_array "''tool.ParameterSchema''" "''*struct''" example_schema
      "''struct''" "''*tool.ParameterSchema''"] string_or_array_reads_back
  have "\<exists>parameters.
      ConvertViaJSON (schema_to_ollama string_or_array ''tool.ParameterSchema'' ''*struct'')
        example_schema zero_ollama_Parameters = Inr parameters \<and>
      oparams_Required parameters = schema_Required example_schema \<and>
      fmdom (oparams_Properties parameters) = fmdom (schema_Properties example_schema) \<and>
      ConvertViaJSON (ollama_to_schema string_or_array ''struct'' ''*tool.ParameterSchema'')
        parameters zero_ParameterSchema = Inr example_schema"
    by blast
  then show ?thesis unfolding r p using string_or_array_reads_back r p by blast
qed


end
